theory Spec2Isabelle
  imports Main
begin

section \<open>Calendar photo converter: the ICS text generator\<close>

text \<open>
  The component \<open>CalendarPhotoConverter\<close> keeps a list of extracted events and turns it
  into an iCalendar document with \<open>generateICS\<close>, formatting every time with
  \<open>formatDateToICS\<close>. The second component, \<open>PhotoToICSGenerator\<close> (Photo.jsx), stores
  the text the remote model answered and offers it for download as a UTF-8 file.

  In the first component strings are lists of characters. The two control characters the
  generator is concerned with are written out.
\<close>

abbreviation LF :: char where
  "LF \<equiv> CHR 0x0A"

abbreviation CR :: char where
  "CR \<equiv> CHR 0x0D"

subsection \<open>Data model\<close>

text \<open>
  \<open>interface CalendarEvent { title: string; start: string; end: string;
  location?: string; description?: string }\<close>. An optional field that is absent is
  \<open>None\<close>. The field \<open>end\<close> is written \<open>end'\<close>.
\<close>

record CalendarEvent =
  title :: string
  start :: string
  end' :: string
  location :: "string option"
  description :: "string option"

text \<open>
  \<open>if (event.location)\<close> tests the field for truthiness: \<open>undefined\<close> and the empty
  string are both falsy, every other string is truthy.
\<close>

definition truthy :: "string option \<Rightarrow> bool" where
  "truthy v = (case v of None \<Rightarrow> False | Some s \<Rightarrow> s \<noteq> [])"

text \<open>The only exception of the generator: \<open>toISOString\<close> on an invalid date.\<close>

datatype error = RangeError

subsection \<open>Numbers in template literals\<close>

definition digitChar :: "nat \<Rightarrow> char" where
  "digitChar d =
     (if d = 0 then CHR ''0'' else if d = 1 then CHR ''1'' else if d = 2 then CHR ''2''
      else if d = 3 then CHR ''3'' else if d = 4 then CHR ''4'' else if d = 5 then CHR ''5''
      else if d = 6 then CHR ''6'' else if d = 7 then CHR ''7'' else if d = 8 then CHR ''8''
      else CHR ''9'')"

text \<open>Decimal digits of a natural number, most significant first, no leading zero.\<close>

fun natToString :: "nat \<Rightarrow> string" where
  "natToString n =
     (if n < 10 then [digitChar n] else natToString (n div 10) @ [digitChar (n mod 10)])"

declare natToString.simps [simp del]

text \<open>
  \<open>`${x}`\<close> for an integral number below \<open>10^21\<close> in magnitude (every time value and
  every array index is one): a minus sign for a negative number, then the digits.
\<close>

definition numberToString :: "int \<Rightarrow> string" where
  "numberToString i =
     (if i < 0 then CHR ''-'' # natToString (nat (- i)) else natToString (nat i))"

text \<open>\<open>String(k).padStart(w, "0")\<close>: at least \<open>w\<close> characters, zeros in front.\<close>

definition padStart :: "nat \<Rightarrow> nat \<Rightarrow> string" where
  "padStart w k = replicate (w - length (natToString k)) CHR ''0'' @ natToString k"

subsection \<open>Time values and \<open>Date.prototype.toISOString\<close>\<close>

text \<open>
  A \<open>Date\<close> holds a time value: an integral number of milliseconds since the epoch, at
  most \<open>8.64 * 10^15\<close> in magnitude, or \<open>NaN\<close> (an invalid date), here \<open>None\<close>. The
  functions below are the day and year arithmetic of the language standard
  (ECMAScript, "Time Values and Time Range" to "Date Number"), with \<open>YearFromTime\<close>
  computed from an estimate corrected by at most one year; the lemmas
  \<open>YearFromTime_bounds\<close> and \<open>YearFromTime_largest\<close> show it is the year the standard
  defines, the largest year that has begun by the time.
\<close>

definition msPerDay :: int where
  "msPerDay = 86400000"

definition Day :: "int \<Rightarrow> int" where
  "Day t = t div msPerDay"

definition DaysInYear :: "int \<Rightarrow> int" where
  "DaysInYear y =
     (if y mod 4 \<noteq> 0 then 365 else if y mod 100 \<noteq> 0 then 366
      else if y mod 400 \<noteq> 0 then 365 else 366)"

definition DayFromYear :: "int \<Rightarrow> int" where
  "DayFromYear y =
     365 * (y - 1970) + (y - 1969) div 4 - (y - 1901) div 100 + (y - 1601) div 400"

definition YearFromTime :: "int \<Rightarrow> int" where
  "YearFromTime t =
     (let d = Day t; y = 1970 + (400 * d) div 146097
      in if d < DayFromYear y then y - 1
         else if DayFromYear (y + 1) \<le> d then y + 1
         else y)"

definition InLeapYear :: "int \<Rightarrow> int" where
  "InLeapYear t = (if DaysInYear (YearFromTime t) = 366 then 1 else 0)"

definition DayWithinYear :: "int \<Rightarrow> int" where
  "DayWithinYear t = Day t - DayFromYear (YearFromTime t)"

definition MonthFromTime :: "int \<Rightarrow> int" where
  "MonthFromTime t =
     (let d = DayWithinYear t; l = InLeapYear t
      in if d < 31 then 0
         else if d < 59 + l then 1
         else if d < 90 + l then 2
         else if d < 120 + l then 3
         else if d < 151 + l then 4
         else if d < 181 + l then 5
         else if d < 212 + l then 6
         else if d < 243 + l then 7
         else if d < 273 + l then 8
         else if d < 304 + l then 9
         else if d < 334 + l then 10
         else 11)"

definition DateFromTime :: "int \<Rightarrow> int" where
  "DateFromTime t =
     (let d = DayWithinYear t; l = InLeapYear t; m = MonthFromTime t
      in if m = 0 then d + 1
         else if m = 1 then d - 30
         else if m = 2 then d - 58 - l
         else if m = 3 then d - 89 - l
         else if m = 4 then d - 119 - l
         else if m = 5 then d - 150 - l
         else if m = 6 then d - 180 - l
         else if m = 7 then d - 211 - l
         else if m = 8 then d - 242 - l
         else if m = 9 then d - 272 - l
         else if m = 10 then d - 303 - l
         else d - 333 - l)"

definition HourFromTime :: "int \<Rightarrow> int" where
  "HourFromTime t = (t div 3600000) mod 24"

definition MinFromTime :: "int \<Rightarrow> int" where
  "MinFromTime t = (t div 60000) mod 60"

definition SecFromTime :: "int \<Rightarrow> int" where
  "SecFromTime t = (t div 1000) mod 60"

definition msFromTime :: "int \<Rightarrow> int" where
  "msFromTime t = t mod 1000"

text \<open>
  The year of the date-time string format: four digits from 0 to 9999, otherwise the
  expanded form, a sign and six digits.
\<close>

definition yearString :: "int \<Rightarrow> string" where
  "yearString y =
     (if 0 \<le> y \<and> y \<le> 9999 then padStart 4 (nat y)
      else (if y < 0 then ''-'' else ''+'') @ padStart 6 (nat \<bar>y\<bar>))"

text \<open>\<open>YYYY-MM-DDTHH:mm:ss.sssZ\<close> of a time value, in UTC.\<close>

definition isoString :: "int \<Rightarrow> string" where
  "isoString t =
     yearString (YearFromTime t) @ ''-'' @ padStart 2 (nat (MonthFromTime t + 1)) @ ''-''
     @ padStart 2 (nat (DateFromTime t)) @ ''T'' @ padStart 2 (nat (HourFromTime t)) @ '':''
     @ padStart 2 (nat (MinFromTime t)) @ '':'' @ padStart 2 (nat (SecFromTime t)) @ ''.''
     @ padStart 3 (nat (msFromTime t)) @ ''Z''"

text \<open>\<open>date.toISOString()\<close> throws a \<open>RangeError\<close> on an invalid date.\<close>

definition toISOString :: "int option \<Rightarrow> error + string" where
  "toISOString date = (case date of None \<Rightarrow> Inl RangeError | Some t \<Rightarrow> Inr (isoString t))"

text \<open>\<open>TimeClip\<close>: a time value out of range is \<open>NaN\<close>.\<close>

definition TimeClip :: "int \<Rightarrow> int option" where
  "TimeClip t = (if \<bar>t\<bar> \<le> 8640000000000000 then Some t else None)"

text \<open>
  \<open>new Date(dateStr)\<close>. What \<open>Date.parse\<close> makes of a string depends on the host and on
  its time zone (a string without an offset is local time), so the host's parser is the
  parameter \<open>parse\<close>: the UTC time value of the string, or \<open>None\<close> for \<open>NaN\<close>.
\<close>

definition newDate :: "(string \<Rightarrow> int option) \<Rightarrow> string \<Rightarrow> int option" where
  "newDate parse dateStr = (case parse dateStr of None \<Rightarrow> None | Some t \<Rightarrow> TimeClip t)"

subsection \<open>\<open>formatDateToICS\<close>\<close>

text \<open>
  \<open>date.toISOString().replace(/[-:]/g, "").split(".")[0] + "Z"\<close>: every dash and colon
  is deleted, the text from the first full stop on is dropped, \<open>Z\<close> is appended.
\<close>

definition replaceDashColon :: "string \<Rightarrow> string" where
  "replaceDashColon s = filter (\<lambda>c. c \<noteq> CHR ''-'' \<and> c \<noteq> CHR '':'') s"

definition splitDotFirst :: "string \<Rightarrow> string" where
  "splitDotFirst s = takeWhile (\<lambda>c. c \<noteq> CHR ''.'') s"

definition formatDateToICS :: "(string \<Rightarrow> int option) \<Rightarrow> string \<Rightarrow> error + string" where
  "formatDateToICS parse dateStr =
     (case toISOString (newDate parse dateStr) of
        Inl e \<Rightarrow> Inl e
      | Inr isoText \<Rightarrow> Inr (splitDotFirst (replaceDashColon isoText) @ ''Z''))"

subsection \<open>\<open>generateICS\<close>\<close>

text \<open>
  The generator reads the clock twice for every event: \<open>Date.now()\<close> for the UID and
  \<open>new Date()\<close> for DTSTAMP. The clock is the function \<open>clock\<close> from the number of the
  reading (0 for the first reading of the run) to the time value read; \<open>ticks\<close> counts
  the readings made so far.
\<close>

definition uid :: "int \<Rightarrow> nat \<Rightarrow> string" where
  "uid now index = numberToString now @ ''-'' @ natToString index @ ''@calendar-converter''"

text \<open>
  The lines of one event, from \<open>BEGIN:VEVENT\<close> to \<open>END:VEVENT\<close>, once the UID and the
  three formatted times are there.
\<close>

definition eventBlock :: "string \<Rightarrow> string \<Rightarrow> string \<Rightarrow> string \<Rightarrow> CalendarEvent \<Rightarrow> string" where
  "eventBlock uidValue dtstamp dtstart dtend event =
     ''BEGIN:VEVENT'' @ [LF]
     @ ''UID:'' @ uidValue @ [LF]
     @ ''DTSTAMP:'' @ dtstamp @ [LF]
     @ ''DTSTART:'' @ dtstart @ [LF]
     @ ''DTEND:'' @ dtend @ [LF]
     @ ''SUMMARY:'' @ title event @ [LF]
     @ (if truthy (location event) then ''LOCATION:'' @ the (location event) @ [LF] else [])
     @ (if truthy (description event)
        then ''DESCRIPTION:'' @ the (description event) @ [LF] else [])
     @ ''END:VEVENT'' @ [LF]"

text \<open>
  One pass of the \<open>forEach\<close> callback: the text it appends to \<open>icsContent\<close>, or the
  exception it throws. \<open>formatDateToICS(new Date().toISOString())\<close> renders the current
  time and parses it again.
\<close>

definition eventText ::
  "(string \<Rightarrow> int option) \<Rightarrow> (nat \<Rightarrow> int) \<Rightarrow> nat \<Rightarrow> CalendarEvent \<Rightarrow> nat \<Rightarrow> error + string" where
  "eventText parse clock ticks event index =
     (case toISOString (Some (clock (ticks + 1))) of
        Inl e \<Rightarrow> Inl e
      | Inr nowIso \<Rightarrow>
     (case formatDateToICS parse nowIso of
        Inl e \<Rightarrow> Inl e
      | Inr dtstamp \<Rightarrow>
     (case formatDateToICS parse (start event) of
        Inl e \<Rightarrow> Inl e
      | Inr dtstart \<Rightarrow>
     (case formatDateToICS parse (end' event) of
        Inl e \<Rightarrow> Inl e
      | Inr dtend \<Rightarrow>
          Inr (eventBlock (uid (clock ticks) index) dtstamp dtstart dtend event)))))"

text \<open>
  \<open>events.forEach((event, index) => ...)\<close>: the events in order, \<open>index\<close> counting from
  0, two clock readings per pass; an exception ends the loop and the function.
\<close>

fun forEachEvent ::
  "(string \<Rightarrow> int option) \<Rightarrow> (nat \<Rightarrow> int) \<Rightarrow> nat \<Rightarrow> nat \<Rightarrow> string \<Rightarrow> CalendarEvent list
   \<Rightarrow> error + string" where
  "forEachEvent parse clock ticks index icsContent [] = Inr icsContent"
| "forEachEvent parse clock ticks index icsContent (event # rest) =
     (case eventText parse clock ticks event index of
        Inl e \<Rightarrow> Inl e
      | Inr block \<Rightarrow> forEachEvent parse clock (ticks + 2) (index + 1) (icsContent @ block) rest)"

definition header :: string where
  "header = ''BEGIN:VCALENDAR'' @ [LF] @ ''VERSION:2.0'' @ [LF]
            @ ''PRODID:-//Calendar Photo Converter//EN'' @ [LF]"

definition generateICS ::
  "(string \<Rightarrow> int option) \<Rightarrow> (nat \<Rightarrow> int) \<Rightarrow> CalendarEvent list \<Rightarrow> error + string" where
  "generateICS parse clock events =
     (case forEachEvent parse clock 0 0 header events of
        Inl e \<Rightarrow> Inl e
      | Inr icsContent \<Rightarrow> Inr (icsContent @ ''END:VCALENDAR''))"

subsection \<open>\<open>generateICS\<close> in its component\<close>

text \<open>
  \<open>generateICS\<close> is declared without parameters inside the component
  \<open>CalendarPhotoConverter\<close>: it reads the state variable \<open>events\<close> and the clock. The
  component has four state variables (\<open>useState\<close>), written with a prime; the world is
  the component's state and the number of clock readings taken so far, \<open>clock\<close> giving
  the value of each reading.
\<close>

record ConverterState =
  image' :: "string option"
  events' :: "CalendarEvent list"
  loading' :: bool
  error' :: string

record World =
  component :: ConverterState
  readings :: nat

text \<open>
  One pass of the callback in the world: \<open>Date.now()\<close> and \<open>new Date()\<close> take the next two
  readings, whether the pass ends with its text or with an exception; no state variable
  is set.
\<close>

definition passInWorld ::
  "(string \<Rightarrow> int option) \<Rightarrow> (nat \<Rightarrow> int) \<Rightarrow> CalendarEvent \<Rightarrow> nat \<Rightarrow> World
   \<Rightarrow> (error + string) \<times> World" where
  "passInWorld parse clock event index w =
     (eventText parse clock (readings w) event index, w\<lparr>readings := readings w + 2\<rparr>)"

fun forEachInWorld ::
  "(string \<Rightarrow> int option) \<Rightarrow> (nat \<Rightarrow> int) \<Rightarrow> nat \<Rightarrow> string \<Rightarrow> CalendarEvent list \<Rightarrow> World
   \<Rightarrow> (error + string) \<times> World" where
  "forEachInWorld parse clock index icsContent [] w = (Inr icsContent, w)"
| "forEachInWorld parse clock index icsContent (event # rest) w =
     (case passInWorld parse clock event index w of
        (Inl e, w') \<Rightarrow> (Inl e, w')
      | (Inr block, w') \<Rightarrow>
          forEachInWorld parse clock (index + 1) (icsContent @ block) rest w')"

text \<open>The call \<open>generateICS()\<close>: its result, a string or an exception, and the world after it.\<close>

definition generateICSInWorld ::
  "(string \<Rightarrow> int option) \<Rightarrow> (nat \<Rightarrow> int) \<Rightarrow> World \<Rightarrow> (error + string) \<times> World" where
  "generateICSInWorld parse clock w =
     (case forEachInWorld parse clock 0 header (events' (component w)) w of
        (Inl e, w') \<Rightarrow> (Inl e, w')
      | (Inr icsContent, w') \<Rightarrow> (Inr (icsContent @ ''END:VCALENDAR''), w'))"

subsection \<open>Photo.jsx: \<open>PhotoToICSGenerator\<close>\<close>

text \<open>
  The second component keeps the model's answer in the state variable \<open>icsData\<close> and
  writes it to a file on request. The answer can hold any character, and the file is made
  of bytes, so here a JavaScript string is the list of its UTF-16 code units, numbers
  below 65536, and the content of a file the list of its bytes, numbers below 256. A
  value that is a string or \<open>undefined\<close> is an option, \<open>None\<close> for \<open>undefined\<close>.
\<close>

type_synonym utf16 = "nat list"

record ContentBlock =
  blockType :: string
  blockText :: "utf16 option"

record PhotoState =
  loading :: bool
  errorMessage :: string
  success :: string
  icsData :: "utf16 option"

text \<open>
  The end of \<open>generateICS\<close> in Photo.jsx, once the response has arrived with status ok:
  \<open>const icsContent = data.content[0].text; setIcsData(icsContent);
  setSuccess('ICS generated successfully!')\<close>. The response is taken in the shape the
  API gives it, a list of blocks with a \<open>type\<close> and, in text blocks, a \<open>text\<close>; the code
  reads the \<open>text\<close> of the block at index 0 and does not look at its \<open>type\<close>. Reading
  \<open>.text\<close> of a missing first block throws a \<open>TypeError\<close>, which the \<open>catch\<close> turns into
  an error message (its wording is the host's, the parameter \<open>message\<close>); \<open>finally\<close>
  clears \<open>loading\<close>.
\<close>

definition generateICS_Photo_response ::
  "string \<Rightarrow> PhotoState \<Rightarrow> ContentBlock list \<Rightarrow> PhotoState" where
  "generateICS_Photo_response message st content =
     (case content of
        [] \<Rightarrow> st\<lparr>errorMessage := ''API Error: '' @ message, loading := False\<rparr>
      | first # others \<Rightarrow>
          st\<lparr>icsData := blockText first, success := ''ICS generated successfully!'',
             loading := False\<rparr>)"

text \<open>
  \<open>new Blob([icsData], { type: 'text/calendar' })\<close>. A part that is neither a buffer nor
  a Blob is converted to a string (\<open>undefined\<close> reads \<open>"undefined"\<close>), the string to its
  Unicode scalar values, and these are written in UTF-8. In the conversion to scalar
  values a high surrogate (D800 to DBFF) followed by a low surrogate (DC00 to DFFF) is
  the character from U+10000 on that the two encode; every other surrogate is replaced
  by U+FFFD; every other code unit is its own scalar value.
\<close>

definition highSurrogate :: "nat \<Rightarrow> bool" where
  "highSurrogate u = (55296 \<le> u \<and> u < 56320)"

definition lowSurrogate :: "nat \<Rightarrow> bool" where
  "lowSurrogate u = (56320 \<le> u \<and> u < 57344)"

fun scalarValues :: "utf16 \<Rightarrow> nat list" where
  "scalarValues [] = []"
| "scalarValues [u] = [if highSurrogate u \<or> lowSurrogate u then 65533 else u]"
| "scalarValues (u # v # rest) =
     (if highSurrogate u \<and> lowSurrogate v
      then (65536 + (u - 55296) * 1024 + (v - 56320)) # scalarValues rest
      else (if highSurrogate u \<or> lowSurrogate u then 65533 else u) # scalarValues (v # rest))"

definition utf8 :: "nat \<Rightarrow> nat list" where
  "utf8 c =
     (if c < 128 then [c]
      else if c < 2048 then [192 + c div 64, 128 + c mod 64]
      else if c < 65536 then [224 + c div 4096, 128 + c div 64 mod 64, 128 + c mod 64]
      else [240 + c div 262144, 128 + c div 4096 mod 64, 128 + c div 64 mod 64, 128 + c mod 64])"

definition toStringJS :: "utf16 option \<Rightarrow> utf16" where
  "toStringJS v = (case v of None \<Rightarrow> map of_char ''undefined'' | Some s \<Rightarrow> s)"

definition blobBytes :: "utf16 option list \<Rightarrow> nat list" where
  "blobBytes parts = concat (map (\<lambda>p. concat (map utf8 (scalarValues (toStringJS p)))) parts)"

text \<open>
  \<open>downloadICS\<close> in Photo.jsx: the Blob of \<open>icsData\<close>, its type, and the name given to the
  link that is clicked.
\<close>

record Download =
  content :: "nat list"
  mimeType :: string
  download :: string

definition downloadICS_Photo :: "PhotoState \<Rightarrow> Download" where
  "downloadICS_Photo st =
     \<lparr>content = blobBytes [icsData st], mimeType = ''text/calendar'', download = ''calendar.ics''\<rparr>"

subsection \<open>Notions the statements use\<close>

text \<open>The lines of a text: \<open>text.split("\n")\<close>.\<close>

fun linesOf :: "string \<Rightarrow> string list" where
  "linesOf [] = [[]]"
| "linesOf (c # cs) =
     (if c = LF then [] # linesOf cs
      else (case linesOf cs of [] \<Rightarrow> [[c]] | l # ls \<Rightarrow> (c # l) # ls))"

definition startsWith :: "string \<Rightarrow> string \<Rightarrow> bool" where
  "startsWith p s = (take (length p) s = p)"

text \<open>The lines that mark an event: its two delimiters and its summary.\<close>

definition eventMarker :: "string \<Rightarrow> bool" where
  "eventMarker l = (l = ''BEGIN:VEVENT'' \<or> l = ''END:VEVENT'' \<or> startsWith ''SUMMARY:'' l)"

text \<open>An event none of whose texts (title, location, description) holds a line feed.\<close>

definition fieldText :: "string option \<Rightarrow> string" where
  "fieldText v = (case v of None \<Rightarrow> [] | Some s \<Rightarrow> s)"

definition noLineFeed :: "CalendarEvent \<Rightarrow> bool" where
  "noLineFeed e =
     (LF \<notin> set (title e) \<and> LF \<notin> set (fieldText (location e))
      \<and> LF \<notin> set (fieldText (description e)))"

definition noCarriageReturn :: "CalendarEvent \<Rightarrow> bool" where
  "noCarriageReturn e =
     (CR \<notin> set (title e) \<and> CR \<notin> set (fieldText (location e))
      \<and> CR \<notin> set (fieldText (description e)))"

text \<open>The pattern \<open>^\d{8}T\d{6}Z$\<close>.\<close>

definition isDigit :: "char \<Rightarrow> bool" where
  "isDigit c = (c \<in> set ''0123456789'')"

definition basicUtcPattern :: "string \<Rightarrow> bool" where
  "basicUtcPattern v =
     (length v = 16 \<and> list_all isDigit (take 8 v) \<and> v ! 8 = CHR ''T''
      \<and> list_all isDigit (take 6 (drop 9 v)) \<and> v ! 15 = CHR ''Z'')"

text \<open>
  \<open>YYYYMMDDTHHMMSSZ\<close> of a time value: its UTC year, month, day, hour, minute and
  second, without separators and without the milliseconds.
\<close>

definition utcBasic :: "int \<Rightarrow> string" where
  "utcBasic t =
     padStart 4 (nat (YearFromTime t)) @ padStart 2 (nat (MonthFromTime t + 1))
     @ padStart 2 (nat (DateFromTime t)) @ ''T'' @ padStart 2 (nat (HourFromTime t))
     @ padStart 2 (nat (MinFromTime t)) @ padStart 2 (nat (SecFromTime t)) @ ''Z''"

text \<open>A string the host reads as a date, and the value \<open>formatDateToICS\<close> gives it.\<close>

definition parses :: "(string \<Rightarrow> int option) \<Rightarrow> string \<Rightarrow> bool" where
  "parses parse dateStr = (newDate parse dateStr \<noteq> None)"

definition icsValue :: "(string \<Rightarrow> int option) \<Rightarrow> string \<Rightarrow> string" where
  "icsValue parse dateStr = (case formatDateToICS parse dateStr of Inl e \<Rightarrow> [] | Inr v \<Rightarrow> v)"

text \<open>
  The lines of an event block, and the blocks of a run that starts at clock reading
  \<open>ticks\<close> with index \<open>index\<close>.
\<close>

definition eventLines :: "string \<Rightarrow> string \<Rightarrow> string \<Rightarrow> string \<Rightarrow> CalendarEvent \<Rightarrow> string list" where
  "eventLines uidValue dtstamp dtstart dtend event =
     [''BEGIN:VEVENT'', ''UID:'' @ uidValue, ''DTSTAMP:'' @ dtstamp, ''DTSTART:'' @ dtstart,
      ''DTEND:'' @ dtend, ''SUMMARY:'' @ title event]
     @ (if truthy (location event) then [''LOCATION:'' @ the (location event)] else [])
     @ (if truthy (description event) then [''DESCRIPTION:'' @ the (description event)] else [])
     @ [''END:VEVENT'']"

definition blockLines ::
  "(string \<Rightarrow> int option) \<Rightarrow> (nat \<Rightarrow> int) \<Rightarrow> nat \<Rightarrow> CalendarEvent \<Rightarrow> nat \<Rightarrow> string list" where
  "blockLines parse clock ticks event index =
     eventLines (uid (clock ticks) index) (icsValue parse (isoString (clock (ticks + 1))))
       (icsValue parse (start event)) (icsValue parse (end' event)) event"

fun allLines ::
  "(string \<Rightarrow> int option) \<Rightarrow> (nat \<Rightarrow> int) \<Rightarrow> nat \<Rightarrow> nat \<Rightarrow> CalendarEvent list \<Rightarrow> string list" where
  "allLines parse clock ticks index [] = []"
| "allLines parse clock ticks index (event # rest) =
     blockLines parse clock ticks event index @ allLines parse clock (ticks + 2) (index + 1) rest"

definition unlinesLF :: "string list \<Rightarrow> string" where
  "unlinesLF ls = concat (map (\<lambda>l. l @ [LF]) ls)"

definition headerLines :: "string list" where
  "headerLines = [''BEGIN:VCALENDAR'', ''VERSION:2.0'', ''PRODID:-//Calendar Photo Converter//EN'']"

definition eventOk :: "(string \<Rightarrow> int option) \<Rightarrow> (nat \<Rightarrow> int) \<Rightarrow> nat \<Rightarrow> CalendarEvent \<Rightarrow> bool" where
  "eventOk parse clock ticks event =
     (parses parse (isoString (clock (ticks + 1))) \<and> parses parse (start event)
      \<and> parses parse (end' event))"

fun allOk :: "(string \<Rightarrow> int option) \<Rightarrow> (nat \<Rightarrow> int) \<Rightarrow> nat \<Rightarrow> CalendarEvent list \<Rightarrow> bool" where
  "allOk parse clock ticks [] = True"
| "allOk parse clock ticks (event # rest) =
     (eventOk parse clock ticks event \<and> allOk parse clock (ticks + 2) rest)"

subsection \<open>A decoder\<close>

text \<open>
  Modelled from the spec: the repository has no decoder; the spec's round-trip property
  speaks of "a minimal parser reading SUMMARY, DTSTART, DTEND, LOCATION, DESCRIPTION".
  This one reads the document line by line: \<open>BEGIN:VEVENT\<close> opens an event with empty
  fields, each of the five property lines sets its field of the open event to the text
  after the colon, \<open>END:VEVENT\<close> closes the event, every other line is skipped.
\<close>

definition emptyEvent :: CalendarEvent where
  "emptyEvent = \<lparr>title = [], start = [], end' = [], location = None, description = None\<rparr>"

definition decodeProperty :: "CalendarEvent \<Rightarrow> string \<Rightarrow> CalendarEvent" where
  "decodeProperty e l =
     (if startsWith ''SUMMARY:'' l then e\<lparr>title := drop 8 l\<rparr>
      else if startsWith ''DTSTART:'' l then e\<lparr>start := drop 8 l\<rparr>
      else if startsWith ''DTEND:'' l then e\<lparr>end' := drop 6 l\<rparr>
      else if startsWith ''LOCATION:'' l then e\<lparr>location := Some (drop 9 l)\<rparr>
      else if startsWith ''DESCRIPTION:'' l then e\<lparr>description := Some (drop 12 l)\<rparr>
      else e)"

fun decodeLines :: "CalendarEvent option \<Rightarrow> string list \<Rightarrow> CalendarEvent list" where
  "decodeLines cur [] = []"
| "decodeLines cur (l # ls) =
     (if l = ''BEGIN:VEVENT'' then decodeLines (Some emptyEvent) ls
      else if l = ''END:VEVENT''
      then (case cur of None \<Rightarrow> decodeLines None ls | Some e \<Rightarrow> e # decodeLines None ls)
      else decodeLines (map_option (\<lambda>e. decodeProperty e l) cur) ls)"

definition decode :: "string \<Rightarrow> CalendarEvent list" where
  "decode doc = decodeLines None (linesOf doc)"

text \<open>
  Modelled from the spec: "reconstruct the original CalendarEvent fields (modulo timezone
  normalization to UTC)". What the decoder is to give back for an event: the title, the
  start and the end as the UTC rendering of the time they were parsed to, and the
  optional texts, an empty one counted as absent. The rendering has no separators and no milliseconds; its year has
  four digits from 0000 to 9999, where it is \<open>utcBasic\<close>, and otherwise six digits,
  after a \<open>+\<close> for a later year and with no sign for an earlier one.
\<close>

definition utcYear :: "int \<Rightarrow> string" where
  "utcYear y =
     (if 0 \<le> y \<and> y \<le> 9999 then padStart 4 (nat y)
      else if y < 0 then padStart 6 (nat (- y))
      else ''+'' @ padStart 6 (nat y))"

definition utcText :: "int \<Rightarrow> string" where
  "utcText t =
     utcYear (YearFromTime t) @ padStart 2 (nat (MonthFromTime t + 1))
     @ padStart 2 (nat (DateFromTime t)) @ ''T'' @ padStart 2 (nat (HourFromTime t))
     @ padStart 2 (nat (MinFromTime t)) @ padStart 2 (nat (SecFromTime t)) @ ''Z''"

definition utcOf :: "(string \<Rightarrow> int option) \<Rightarrow> string \<Rightarrow> string" where
  "utcOf parse dateStr = (case newDate parse dateStr of None \<Rightarrow> [] | Some t \<Rightarrow> utcText t)"

definition normalized :: "(string \<Rightarrow> int option) \<Rightarrow> CalendarEvent \<Rightarrow> CalendarEvent" where
  "normalized parse e =
     \<lparr>title = title e, start = utcOf parse (start e), end' = utcOf parse (end' e),
      location = (if truthy (location e) then location e else None),
      description = (if truthy (description e) then description e else None)\<rparr>"

subsection \<open>An example host\<close>

text \<open>
  For the examples: a host whose local time zone is UTC, on the few strings the examples
  use, and a clock that stands still at the beginning of 2025.
\<close>

definition exampleParse :: "string \<Rightarrow> int option" where
  "exampleParse s =
     (if s = ''2025-03-10T09:00:00'' then Some 1741597200000
      else if s = ''2025-03-10T10:30:00'' then Some 1741602600000
      else if s = ''2025-01-01T00:00:00.000Z'' then Some 1735689600000
      else if s = ''2025-01-01T00:00:01.000Z'' then Some 1735689601000
      else if s = ''+010000-01-01T00:00:00.000Z'' then Some 253402300800000
      else None)"

definition exampleClock :: "nat \<Rightarrow> int" where
  "exampleClock k = 1735689600000"

definition midterm :: CalendarEvent where
  "midterm = \<lparr>title = ''Midterm'', start = ''2025-03-10T09:00:00'',
     end' = ''2025-03-10T10:30:00'', location = None, description = None\<rparr>"

text \<open>An event that ends before it starts, and one whose start is no date.\<close>

definition backwards :: CalendarEvent where
  "backwards = \<lparr>title = ''Backwards'', start = ''2025-03-10T10:30:00'',
     end' = ''2025-03-10T09:00:00'', location = None, description = None\<rparr>"

definition undated :: CalendarEvent where
  "undated = \<lparr>title = ''Some day'', start = ''next Tuesday'',
     end' = ''2025-03-10T09:00:00'', location = None, description = None\<rparr>"

text \<open>A clock that stands at the first millisecond of the year 10000.\<close>

definition farClock :: "nat \<Rightarrow> int" where
  "farClock k = 253402300800000"

text \<open>A clock that has moved on by a second after its first two readings.\<close>

definition movingClock :: "nat \<Rightarrow> int" where
  "movingClock k = (if k < 2 then 1735689600000 else 1735689601000)"

text \<open>Events whose texts hold a line feed, and one with an empty location.\<close>

definition injected :: CalendarEvent where
  "injected = \<lparr>title = ''Lab'', start = ''2025-03-10T09:00:00'',
     end' = ''2025-03-10T10:30:00'', location = None,
     description = Some (''Bring:'' @ [LF] @ ''BEGIN:VEVENT'')\<rparr>"

definition relocated :: CalendarEvent where
  "relocated = \<lparr>title = ''Lab'' @ [LF] @ ''LOCATION:Room 5'', start = ''2025-03-10T09:00:00'',
     end' = ''2025-03-10T10:30:00'', location = None, description = None\<rparr>"

definition twoLines :: CalendarEvent where
  "twoLines = \<lparr>title = ''Lab'' @ [LF] @ ''bring goggles'', start = ''2025-03-10T09:00:00'',
     end' = ''2025-03-10T10:30:00'', location = Some [], description = None\<rparr>"

definition lecture :: CalendarEvent where
  "lecture = \<lparr>title = ''Lecture'', start = ''2025-03-10T09:00:00'',
     end' = ''2025-03-10T10:30:00'', location = Some ''Room 5'', description = Some []\<rparr>"

definition roomFive :: CalendarEvent where
  "roomFive = \<lparr>title = ''Lab'', start = ''2025-03-10T09:00:00'',
     end' = ''2025-03-10T10:30:00'', location = Some ''Room 5'', description = None\<rparr>"

text \<open>
  Two worlds with the same events and nothing else in common: in the second an image is
  loaded, an error is shown and five readings of another clock have been taken; that
  clock reads the time of the first from then on.
\<close>

definition quietWorld :: World where
  "quietWorld =
     \<lparr>component = \<lparr>image' = None, events' = [midterm, backwards], loading' = False, error' = []\<rparr>,
      readings = 0\<rparr>"

definition busyWorld :: World where
  "busyWorld =
     \<lparr>component = \<lparr>image' = Some ''data:image/jpeg;base64,AAAA'', events' = [midterm, backwards],
        loading' = True, error' = ''No events found''\<rparr>,
      readings = 5\<rparr>"

definition lateClock :: "nat \<Rightarrow> int" where
  "lateClock k = (if k < 5 then 0 else 1735689600000)"

subsection \<open>Reading a file back\<close>

text \<open>
  A string is well formed when its code units are below 65536 and every surrogate in it
  is one of a pair, a high surrogate followed by a low one.
\<close>

fun wellFormed :: "utf16 \<Rightarrow> bool" where
  "wellFormed [] = True"
| "wellFormed [u] = (u < 65536 \<and> \<not> highSurrogate u \<and> \<not> lowSurrogate u)"
| "wellFormed (u # v # rest) =
     (if highSurrogate u then lowSurrogate v \<and> wellFormed rest
      else u < 65536 \<and> \<not> lowSurrogate u \<and> wellFormed (v # rest))"

text \<open>
  Reading UTF-8: the first byte of a character tells how many bytes follow, and each of
  these carries six bits. Bytes that are cut off at the end read U+FFFD.
\<close>

fun utf8Decode :: "nat list \<Rightarrow> nat list" where
  "utf8Decode [] = []"
| "utf8Decode (b # bs) =
     (if b < 128 then b # utf8Decode bs
      else if b < 224 then
        (case bs of
           b1 # rest \<Rightarrow> ((b - 192) * 64 + (b1 - 128)) # utf8Decode rest
         | _ \<Rightarrow> [65533])
      else if b < 240 then
        (case bs of
           b1 # b2 # rest \<Rightarrow> ((b - 224) * 4096 + (b1 - 128) * 64 + (b2 - 128)) # utf8Decode rest
         | _ \<Rightarrow> [65533])
      else
        (case bs of
           b1 # b2 # b3 # rest \<Rightarrow>
             ((b - 240) * 262144 + (b1 - 128) * 4096 + (b2 - 128) * 64 + (b3 - 128))
               # utf8Decode rest
         | _ \<Rightarrow> [65533]))"

text \<open>The UTF-16 code units of a scalar value, and the JavaScript string of a text.\<close>

definition utf16Units :: "nat \<Rightarrow> utf16" where
  "utf16Units c =
     (if c < 65536 then [c]
      else [55296 + (c - 65536) div 1024, 56320 + (c - 65536) mod 1024])"

definition stringOfBytes :: "nat list \<Rightarrow> utf16" where
  "stringOfBytes bs = concat (map utf16Units (utf8Decode bs))"

text \<open>
  Examples: a state of the component before a response, a response whose first block is
  not a text block, and two answers, one of them a single high surrogate.
\<close>

definition waiting :: PhotoState where
  "waiting = \<lparr>loading = True, errorMessage = [], success = [], icsData = Some []\<rparr>"

definition toolFirst :: "ContentBlock list" where
  "toolFirst =
     [\<lparr>blockType = ''tool_use'', blockText = None\<rparr>,
      \<lparr>blockType = ''text'', blockText = Some (map of_char ''BEGIN:VCALENDAR'')\<rparr>]"

definition textFirst :: "ContentBlock list" where
  "textFirst = [\<lparr>blockType = ''text'', blockText = Some [66, 233, 8364, 55357, 56837]\<rparr>]"

definition loneSurrogate :: PhotoState where
  "loneSurrogate = \<lparr>loading = False, errorMessage = [], success = [], icsData = Some [55296]\<rparr>"

definition replacement :: PhotoState where
  "replacement = \<lparr>loading = False, errorMessage = [], success = [], icsData = Some [65533]\<rparr>"

section \<open>The calendar arithmetic\<close>

lemma int_div_bounds:
  fixes x n :: int
  assumes "0 < n"
  shows "n * (x div n) \<le> x" and "x \<le> n * (x div n) + n - 1"
proof -
  have "n * (x div n) + x mod n = x" by simp
  moreover have "0 \<le> x mod n" using assms by simp
  moreover have "x mod n < n" using assms by simp
  ultimately show "n * (x div n) \<le> x" and "x \<le> n * (x div n) + n - 1" by linarith+
qed

text \<open>Four hundred years have 146097 days: the first day of a year, within two days.\<close>

lemma DayFromYear_estimate:
  "146097 * k - 506 \<le> 400 * DayFromYear (1970 + k)"
  "400 * DayFromYear (1970 + k) \<le> 146097 * k + 589"
proof -
  define a where "a = (k + 1) div 4"
  define b where "b = (k + 69) div 100"
  define c where "c = (k + 369) div 400"
  have a: "4 * a \<le> k + 1" "k + 1 \<le> 4 * a + 3"
    using int_div_bounds [of 4 "k + 1"] unfolding a_def by simp_all
  have b: "100 * b \<le> k + 69" "k + 69 \<le> 100 * b + 99"
    using int_div_bounds [of 100 "k + 69"] unfolding b_def by simp_all
  have c: "400 * c \<le> k + 369" "k + 369 \<le> 400 * c + 399"
    using int_div_bounds [of 400 "k + 369"] unfolding c_def by simp_all
  have "DayFromYear (1970 + k) = 365 * k + a - b + c"
    unfolding DayFromYear_def a_def b_def c_def by (simp add: add.commute)
  then have D: "400 * DayFromYear (1970 + k) = 146000 * k + 400 * a - 400 * b + 400 * c"
    by simp
  show "146097 * k - 506 \<le> 400 * DayFromYear (1970 + k)"
    unfolding D using a b c by linarith
  show "400 * DayFromYear (1970 + k) \<le> 146097 * k + 589"
    unfolding D using a b c by linarith
qed

text \<open>
  \<open>YearFromTime t\<close> is the year the standard asks for: the year whose first day is not
  after the day of \<open>t\<close>, while the first day of the next year is.
\<close>

lemma YearFromTime_bounds:
  "DayFromYear (YearFromTime t) \<le> Day t \<and> Day t < DayFromYear (YearFromTime t + 1)"
proof -
  define d where "d = Day t"
  define q where "q = (400 * d) div 146097"
  have q1: "146097 * q \<le> 400 * d" and q2: "400 * d \<le> 146097 * q + 146096"
    using int_div_bounds [of 146097 "400 * d"] unfolding q_def by simp_all
  have "400 * DayFromYear (1970 + (q - 1)) \<le> 146097 * (q - 1) + 589"
    by (rule DayFromYear_estimate)
  also have "\<dots> = 146097 * q - 145508"
    by simp
  finally have "400 * DayFromYear (1970 + (q - 1)) \<le> 400 * d"
    using q1 by linarith
  then have lo: "DayFromYear (1970 + q - 1) \<le> d"
    by simp
  have "146097 * q + 291688 = 146097 * (q + 2) - 506"
    by simp
  also have "\<dots> \<le> 400 * DayFromYear (1970 + (q + 2))"
    by (rule DayFromYear_estimate)
  finally have "400 * d < 400 * DayFromYear (1970 + (q + 2))"
    using q2 by linarith
  then have hi: "d < DayFromYear (1970 + q + 1 + 1)"
    by (simp add: add.assoc)
  show ?thesis
    unfolding YearFromTime_def Let_def d_def [symmetric] q_def [symmetric]
    using lo hi by auto
qed

lemma div_succ:
  fixes x n :: int
  assumes "0 < n"
  shows "(x + 1) div n = x div n + (if (x + 1) mod n = 0 then 1 else 0)"
proof -
  define q where "q = x div n"
  define r where "r = x mod n"
  have x: "x = n * q + r" and r0: "0 \<le> r" and rn: "r < n"
    using assms by (simp_all add: q_def r_def)
  show ?thesis
  proof (cases "r = n - 1")
    case True
    then have e: "x + 1 = n * (q + 1) + 0"
      using x by (simp add: algebra_simps)
    have "(x + 1) div n = q + 1" and "(x + 1) mod n = 0"
      using int_div_pos_eq [OF e] int_mod_pos_eq [OF e] assms by simp_all
    then show ?thesis by (simp add: q_def)
  next
    case False
    then have e: "x + 1 = n * q + (r + 1)" and b: "0 \<le> r + 1" "r + 1 < n"
      using x r0 rn by simp_all
    have "(x + 1) div n = q" and "(x + 1) mod n = r + 1"
      using int_div_pos_eq [OF e b] int_mod_pos_eq [OF e b] by simp_all
    then show ?thesis using r0 by (simp add: q_def)
  qed
qed

lemma mod_shift4: "((y::int) - 1969 + 1) mod 4 = 0 \<longleftrightarrow> y mod 4 = 0"
proof -
  have "y - 1969 + 1 = y + 4 * (- 492)" by simp
  then show ?thesis by (simp only: mod_mult_self2)
qed

lemma mod_shift100: "((y::int) - 1901 + 1) mod 100 = 0 \<longleftrightarrow> y mod 100 = 0"
proof -
  have "y - 1901 + 1 = y + 100 * (- 19)" by simp
  then show ?thesis by (simp only: mod_mult_self2)
qed

lemma mod_shift400: "((y::int) - 1601 + 1) mod 400 = 0 \<longleftrightarrow> y mod 400 = 0"
proof -
  have "y - 1601 + 1 = y + 400 * (- 4)" by simp
  then show ?thesis by (simp only: mod_mult_self2)
qed

lemma mod_400_100: "(y::int) mod 400 = 0 \<Longrightarrow> y mod 100 = 0"
proof -
  assume "y mod 400 = 0"
  then have "400 dvd y" by (simp add: dvd_eq_mod_eq_0)
  moreover have "(100::int) dvd 400" by simp
  ultimately have "100 dvd y" by (rule dvd_trans [rotated])
  then show ?thesis by (simp add: dvd_eq_mod_eq_0)
qed

lemma mod_100_4: "(y::int) mod 100 = 0 \<Longrightarrow> y mod 4 = 0"
proof -
  assume "y mod 100 = 0"
  then have "100 dvd y" by (simp add: dvd_eq_mod_eq_0)
  moreover have "(4::int) dvd 100" by simp
  ultimately have "4 dvd y" by (rule dvd_trans [rotated])
  then show ?thesis by (simp add: dvd_eq_mod_eq_0)
qed

text \<open>A year has as many days as \<open>DaysInYear\<close> says.\<close>

lemma DayFromYear_step: "DayFromYear (y + 1) = DayFromYear y + DaysInYear y"
proof -
  have a: "(y + 1 - 1969) div 4 = (y - 1969) div 4 + (if y mod 4 = 0 then 1 else 0)"
    using div_succ [of 4 "y - 1969"] mod_shift4 [of y] by (simp add: algebra_simps)
  have b: "(y + 1 - 1901) div 100 = (y - 1901) div 100 + (if y mod 100 = 0 then 1 else 0)"
    using div_succ [of 100 "y - 1901"] mod_shift100 [of y] by (simp add: algebra_simps)
  have c: "(y + 1 - 1601) div 400 = (y - 1601) div 400 + (if y mod 400 = 0 then 1 else 0)"
    using div_succ [of 400 "y - 1601"] mod_shift400 [of y] by (simp add: algebra_simps)
  show ?thesis
    unfolding DayFromYear_def DaysInYear_def a b c
    using mod_400_100 [of y] mod_100_4 [of y] by auto
qed

lemma DaysInYear_pos: "0 < DaysInYear y"
  by (simp add: DaysInYear_def)

lemma DayFromYear_mono_nat: "DayFromYear y \<le> DayFromYear (y + int n)"
proof (induction n)
  case 0
  then show ?case by simp
next
  case (Suc n)
  have "DayFromYear (y + int (Suc n)) = DayFromYear (y + int n) + DaysInYear (y + int n)"
    using DayFromYear_step [of "y + int n"] by (simp add: ac_simps)
  then show ?case
    using Suc DaysInYear_pos [of "y + int n"] by simp
qed

lemma DayFromYear_mono: "y \<le> z \<Longrightarrow> DayFromYear y \<le> DayFromYear z"
  using DayFromYear_mono_nat [of y "nat (z - y)"] by simp

text \<open>
  \<open>YearFromTime t\<close> is the largest year that has begun by the day of \<open>t\<close>, which is how
  the standard defines it.
\<close>

lemma YearFromTime_largest: "DayFromYear y \<le> Day t \<longleftrightarrow> y \<le> YearFromTime t"
proof
  assume a: "DayFromYear y \<le> Day t"
  show "y \<le> YearFromTime t"
  proof (rule ccontr)
    assume "\<not> y \<le> YearFromTime t"
    then have "YearFromTime t + 1 \<le> y" by simp
    then have "DayFromYear (YearFromTime t + 1) \<le> DayFromYear y"
      by (rule DayFromYear_mono)
    then show False
      using a YearFromTime_bounds [of t] by simp
  qed
next
  assume "y \<le> YearFromTime t"
  then have "DayFromYear y \<le> DayFromYear (YearFromTime t)"
    by (rule DayFromYear_mono)
  then show "DayFromYear y \<le> Day t"
    using YearFromTime_bounds [of t] by simp
qed

lemma DayWithinYear_bounds:
  "0 \<le> DayWithinYear t \<and> DayWithinYear t < 365 + InLeapYear t"
proof -
  have "DaysInYear (YearFromTime t) = 365 + InLeapYear t"
    by (simp add: InLeapYear_def DaysInYear_def)
  then show ?thesis
    using YearFromTime_bounds [of t] DayFromYear_step [of "YearFromTime t"]
    by (simp add: DayWithinYear_def)
qed

lemma InLeapYear_cases: "InLeapYear t = 0 \<or> InLeapYear t = 1"
  by (simp add: InLeapYear_def)

lemma MonthFromTime_bounds: "0 \<le> MonthFromTime t \<and> MonthFromTime t \<le> 11"
  by (simp add: MonthFromTime_def Let_def)

lemma DateFromTime_bounds: "1 \<le> DateFromTime t \<and> DateFromTime t \<le> 31"
proof -
  define d where "d = DayWithinYear t"
  define l where "l = InLeapYear t"
  have d: "0 \<le> d" "d < 365 + l" and l: "l = 0 \<or> l = 1"
    using DayWithinYear_bounds [of t] InLeapYear_cases [of t] by (simp_all add: d_def l_def)
  show ?thesis
    unfolding DateFromTime_def MonthFromTime_def Let_def d_def [symmetric] l_def [symmetric]
    using d l by auto
qed

lemma HourFromTime_bounds: "0 \<le> HourFromTime t \<and> HourFromTime t < 24"
  by (simp add: HourFromTime_def)

lemma MinFromTime_bounds: "0 \<le> MinFromTime t \<and> MinFromTime t < 60"
  by (simp add: MinFromTime_def)

lemma SecFromTime_bounds: "0 \<le> SecFromTime t \<and> SecFromTime t < 60"
  by (simp add: SecFromTime_def)

lemma msFromTime_bounds: "0 \<le> msFromTime t \<and> msFromTime t < 1000"
  by (simp add: msFromTime_def)

section \<open>Digits\<close>

lemma isDigit_digitChar: "isDigit (digitChar d)"
  by (simp add: isDigit_def digitChar_def)

lemma digitChar_inj: "a < 10 \<Longrightarrow> b < 10 \<Longrightarrow> digitChar a = digitChar b \<Longrightarrow> a = b"
  by (simp add: digitChar_def split: if_splits; arith)

lemma natToString_digits: "list_all isDigit (natToString n)"
proof (induction n rule: natToString.induct)
  case (1 n)
  show ?case
  proof (cases "n < 10")
    case True
    then show ?thesis by (simp add: natToString.simps [of n] isDigit_digitChar)
  next
    case False
    with 1 show ?thesis by (simp add: natToString.simps [of n] isDigit_digitChar)
  qed
qed

lemma natToString_not_Nil: "natToString n \<noteq> []"
  by (simp add: natToString.simps [of n])

lemma natToString_length: "0 < w \<Longrightarrow> n < 10 ^ w \<Longrightarrow> length (natToString n) \<le> w"
proof (induction n arbitrary: w rule: natToString.induct)
  case (1 n)
  show ?case
  proof (cases "n < 10")
    case True
    then show ?thesis using "1.prems" by (simp add: natToString.simps [of n])
  next
    case False
    obtain v where w: "w = Suc v"
      using "1.prems"(1) by (cases w) simp_all
    have "v \<noteq> 0"
      using False "1.prems"(2) w by (cases v) simp_all
    moreover have "n div 10 < 10 ^ v"
      using "1.prems"(2) w by (simp add: less_mult_imp_div_less mult.commute)
    ultimately have "length (natToString (n div 10)) \<le> v"
      using "1.IH" [OF False, of v] by simp
    then show ?thesis using False w by (simp add: natToString.simps [of n])
  qed
qed

lemma natToString_inj: "natToString n = natToString m \<Longrightarrow> n = m"
proof (induction n arbitrary: m rule: natToString.induct)
  case (1 n)
  show ?case
  proof (cases "n < 10")
    case n: True
    show ?thesis
    proof (cases "m < 10")
      case True
      with n "1.prems" show ?thesis
        by (simp add: natToString.simps [of n] natToString.simps [of m] digitChar_inj)
    next
      case False
      with n "1.prems" show ?thesis
        using natToString_not_Nil [of "m div 10"]
        by (simp add: natToString.simps [of n] natToString.simps [of m])
    qed
  next
    case n: False
    show ?thesis
    proof (cases "m < 10")
      case True
      with n "1.prems" show ?thesis
        using natToString_not_Nil [of "n div 10"]
        by (simp add: natToString.simps [of n] natToString.simps [of m])
    next
      case False
      with n "1.prems" have eq: "natToString (n div 10) = natToString (m div 10)"
        and d: "digitChar (n mod 10) = digitChar (m mod 10)"
        by (simp_all add: natToString.simps [of n] natToString.simps [of m])
      have "n div 10 = m div 10"
        using "1.IH" [OF n eq] .
      moreover have "n mod 10 = m mod 10"
        using d by (intro digitChar_inj) simp_all
      ultimately show ?thesis
        by (metis div_mult_mod_eq)
    qed
  qed
qed

lemma padStart_length: "0 < w \<Longrightarrow> n < 10 ^ w \<Longrightarrow> length (padStart w n) = w"
  using natToString_length [of w n] by (simp add: padStart_def)

lemma padStart_digits: "list_all isDigit (padStart w n)"
proof -
  have "list_all isDigit (replicate k (CHR ''0''))" for k
    by (induction k) (simp_all add: isDigit_def)
  then show ?thesis
    by (simp add: padStart_def natToString_digits)
qed

lemma isDigit_not_special:
  "isDigit c \<Longrightarrow> c \<noteq> LF \<and> c \<noteq> CR \<and> c \<noteq> CHR ''-'' \<and> c \<noteq> CHR '':'' \<and> c \<noteq> CHR ''.''"
  by (auto simp: isDigit_def)

section \<open>What \<open>formatDateToICS\<close> returns\<close>

lemma replaceDashColon_append [simp]:
  "replaceDashColon (a @ b) = replaceDashColon a @ replaceDashColon b"
  by (simp add: replaceDashColon_def)

lemma replaceDashColon_Nil [simp]: "replaceDashColon [] = []"
  by (simp add: replaceDashColon_def)

lemma replaceDashColon_Cons [simp]:
  "replaceDashColon (c # s) =
     (if c = CHR ''-'' \<or> c = CHR '':'' then replaceDashColon s else c # replaceDashColon s)"
  by (simp add: replaceDashColon_def)

lemma replaceDashColon_digits: "list_all isDigit s \<Longrightarrow> replaceDashColon s = s"
  unfolding replaceDashColon_def
  by (rule filter_True) (auto simp: list_all_iff dest: isDigit_not_special)

lemma splitDotFirst_append: "CHR ''.'' \<notin> set a \<Longrightarrow> splitDotFirst (a @ b) = a @ splitDotFirst b"
  unfolding splitDotFirst_def by (rule takeWhile_append2) auto

lemma digits_no_dot: "list_all isDigit s \<Longrightarrow> CHR ''.'' \<notin> set s"
  by (auto simp: list_all_iff dest: isDigit_not_special)

lemma formatDateToICS_eq:
  "formatDateToICS parse s =
     (if parses parse s then Inr (icsValue parse s) else Inl RangeError)"
  by (simp add: formatDateToICS_def icsValue_def parses_def toISOString_def
      split: option.splits)

lemma formatDateToICS_Some:
  "newDate parse s = Some t \<Longrightarrow>
   formatDateToICS parse s = Inr (splitDotFirst (replaceDashColon (isoString t)) @ ''Z'')"
  by (simp add: formatDateToICS_def toISOString_def)

text \<open>For a year of four digits the value is the basic UTC form of the time.\<close>

lemma strip_isoString:
  assumes "0 \<le> YearFromTime t" and "YearFromTime t \<le> 9999"
  shows "splitDotFirst (replaceDashColon (isoString t)) @ ''Z'' = utcBasic t"
proof -
  define front where
    "front = padStart 4 (nat (YearFromTime t)) @ padStart 2 (nat (MonthFromTime t + 1))
       @ padStart 2 (nat (DateFromTime t)) @ ''T'' @ padStart 2 (nat (HourFromTime t))
       @ padStart 2 (nat (MinFromTime t)) @ padStart 2 (nat (SecFromTime t))"
  have r: "replaceDashColon (isoString t) = front @ ''.'' @ padStart 3 (nat (msFromTime t)) @ ''Z''"
    using assms
    by (simp add: isoString_def yearString_def front_def replaceDashColon_digits padStart_digits)
  have "CHR ''.'' \<notin> set front"
    using digits_no_dot [OF padStart_digits] by (simp add: front_def)
  then have "splitDotFirst (front @ ''.'' @ padStart 3 (nat (msFromTime t)) @ ''Z'') = front"
    by (simp add: splitDotFirst_append) (simp add: splitDotFirst_def)
  then show ?thesis
    by (simp add: r) (simp add: front_def utcBasic_def)
qed

lemma formatDateToICS_utcBasic:
  "newDate parse s = Some t \<Longrightarrow> 0 \<le> YearFromTime t \<Longrightarrow> YearFromTime t \<le> 9999 \<Longrightarrow>
   formatDateToICS parse s = Inr (utcBasic t)"
  by (simp add: formatDateToICS_Some strip_isoString)

lemma basicUtcPattern_intro:
  assumes "length a = 8" "length b = 6" "list_all isDigit a" "list_all isDigit b"
  shows "basicUtcPattern (a @ ''T'' @ b @ ''Z'')"
  using assms by (simp add: basicUtcPattern_def nth_append)

lemma padStart2_length: "0 \<le> x \<Longrightarrow> x < 100 \<Longrightarrow> length (padStart 2 (nat x)) = 2"
  by (rule padStart_length) (simp_all add: nat_less_iff)

lemma basicUtcPattern_utcBasic:
  assumes "0 \<le> YearFromTime t" and "YearFromTime t \<le> 9999"
  shows "basicUtcPattern (utcBasic t)"
proof -
  have y: "length (padStart 4 (nat (YearFromTime t))) = 4"
    using assms by (intro padStart_length) (simp_all add: nat_less_iff)
  have m: "length (padStart 2 (nat (MonthFromTime t + 1))) = 2"
    using MonthFromTime_bounds [of t] by (intro padStart2_length) simp_all
  have d: "length (padStart 2 (nat (DateFromTime t))) = 2"
    using DateFromTime_bounds [of t] by (intro padStart2_length) simp_all
  have h: "length (padStart 2 (nat (HourFromTime t))) = 2"
    using HourFromTime_bounds [of t] by (intro padStart2_length) simp_all
  have mi: "length (padStart 2 (nat (MinFromTime t))) = 2"
    using MinFromTime_bounds [of t] by (intro padStart2_length) simp_all
  have s: "length (padStart 2 (nat (SecFromTime t))) = 2"
    using SecFromTime_bounds [of t] by (intro padStart2_length) simp_all
  have "basicUtcPattern
     ((padStart 4 (nat (YearFromTime t)) @ padStart 2 (nat (MonthFromTime t + 1))
        @ padStart 2 (nat (DateFromTime t))) @ ''T''
      @ (padStart 2 (nat (HourFromTime t)) @ padStart 2 (nat (MinFromTime t))
        @ padStart 2 (nat (SecFromTime t))) @ ''Z'')"
    by (rule basicUtcPattern_intro) (simp_all add: y m d h mi s padStart_digits)
  then show ?thesis
    by (simp add: utcBasic_def)
qed

text \<open>Whatever the year, the value holds neither a line feed nor a carriage return.\<close>

lemma isoString_chars:
  "c \<in> set (isoString t) \<Longrightarrow> isDigit c \<or> c \<in> set ''-+T:.Z''"
  using padStart_digits
  by (auto simp: isoString_def yearString_def list_all_iff split: if_splits)

lemma icsValue_chars:
  assumes "c \<in> set (icsValue parse s)"
  shows "isDigit c \<or> c \<in> set ''-+T:.Z''"
proof (cases "newDate parse s")
  case None
  then show ?thesis
    using assms by (simp add: icsValue_def formatDateToICS_def toISOString_def)
next
  case (Some t)
  have "set (splitDotFirst (replaceDashColon (isoString t))) \<subseteq> set (isoString t)"
    unfolding splitDotFirst_def replaceDashColon_def
    using set_takeWhileD by fastforce
  then show ?thesis
    using assms Some isoString_chars [of c t]
    by (auto simp: icsValue_def formatDateToICS_Some)
qed

lemma icsValue_no_LF: "LF \<notin> set (icsValue parse s)"
  using icsValue_chars [of LF parse s] by (auto simp: isDigit_def)

lemma icsValue_no_CR: "CR \<notin> set (icsValue parse s)"
  using icsValue_chars [of CR parse s] by (auto simp: isDigit_def)

text \<open>Whatever the year, the value is the UTC rendering \<open>utcText\<close> of the time.\<close>

lemma strip_isoString_any: "splitDotFirst (replaceDashColon (isoString t)) @ ''Z'' = utcText t"
proof -
  define rest where
    "rest = padStart 2 (nat (MonthFromTime t + 1))
       @ padStart 2 (nat (DateFromTime t)) @ ''T'' @ padStart 2 (nat (HourFromTime t))
       @ padStart 2 (nat (MinFromTime t)) @ padStart 2 (nat (SecFromTime t))"
  have r: "replaceDashColon (isoString t)
           = utcYear (YearFromTime t) @ rest @ ''.'' @ padStart 3 (nat (msFromTime t)) @ ''Z''"
    by (simp add: isoString_def yearString_def utcYear_def rest_def replaceDashColon_digits
        padStart_digits)
  have "CHR ''.'' \<notin> set (utcYear (YearFromTime t))"
    using digits_no_dot [OF padStart_digits] by (simp add: utcYear_def)
  moreover have "CHR ''.'' \<notin> set rest"
    using digits_no_dot [OF padStart_digits] by (simp add: rest_def)
  ultimately have "splitDotFirst ((utcYear (YearFromTime t) @ rest)
      @ ''.'' @ padStart 3 (nat (msFromTime t)) @ ''Z'') = utcYear (YearFromTime t) @ rest"
    by (subst splitDotFirst_append) (simp_all add: splitDotFirst_def)
  then show ?thesis
    by (simp add: r) (simp add: rest_def utcText_def)
qed

lemma utcText_four_digits:
  "0 \<le> YearFromTime t \<Longrightarrow> YearFromTime t \<le> 9999 \<Longrightarrow> utcText t = utcBasic t"
  by (simp add: utcText_def utcYear_def utcBasic_def)

lemma icsValue_utcOf: "icsValue parse s = utcOf parse s"
  by (cases "newDate parse s")
    (simp_all add: icsValue_def utcOf_def formatDateToICS_def toISOString_def
      strip_isoString_any)

section \<open>The loop of \<open>generateICS\<close>\<close>

lemma unlinesLF_append [simp]: "unlinesLF (a @ b) = unlinesLF a @ unlinesLF b"
  by (simp add: unlinesLF_def)

lemma unlinesLF_Nil [simp]: "unlinesLF [] = []"
  by (simp add: unlinesLF_def)

lemma unlinesLF_Cons [simp]: "unlinesLF (l # ls) = l @ LF # unlinesLF ls"
  by (simp add: unlinesLF_def)

lemma eventBlock_lines:
  "eventBlock u a b c e = unlinesLF (eventLines u a b c e)"
  by (simp add: eventBlock_def eventLines_def)

lemma header_lines: "header = unlinesLF headerLines"
  by (simp add: header_def headerLines_def)

lemma eventText_eq:
  "eventText parse clock k e i =
     (if eventOk parse clock k e then Inr (unlinesLF (blockLines parse clock k e i))
      else Inl RangeError)"
  by (simp add: eventText_def toISOString_def formatDateToICS_eq eventOk_def blockLines_def
      eventBlock_lines)

lemma forEachEvent_eq:
  "forEachEvent parse clock k i acc es =
     (if allOk parse clock k es then Inr (acc @ unlinesLF (allLines parse clock k i es))
      else Inl RangeError)"
  by (induction es arbitrary: k i acc) (simp_all add: eventText_eq)

lemma generateICS_eq:
  "generateICS parse clock es =
     (if allOk parse clock 0 es
      then Inr (unlinesLF (headerLines @ allLines parse clock 0 0 es) @ ''END:VCALENDAR'')
      else Inl RangeError)"
  by (simp add: generateICS_def forEachEvent_eq header_lines)

section \<open>Lines\<close>

lemma linesOf_no_LF: "LF \<notin> set s \<Longrightarrow> linesOf s = [s]"
  by (induction s) auto

lemma linesOf_line: "LF \<notin> set l \<Longrightarrow> linesOf (l @ LF # rest) = l # linesOf rest"
  by (induction l) auto

lemma linesOf_unlinesLF:
  "\<forall>l \<in> set ls. LF \<notin> set l \<Longrightarrow> LF \<notin> set z \<Longrightarrow> linesOf (unlinesLF ls @ z) = ls @ [z]"
  by (induction ls) (simp_all add: linesOf_no_LF linesOf_line)

lemma natToString_no_LF: "LF \<notin> set (natToString n)"
  using natToString_digits [of n] by (auto simp: list_all_iff dest: isDigit_not_special)

lemma natToString_no_CR: "CR \<notin> set (natToString n)"
  using natToString_digits [of n] by (auto simp: list_all_iff dest: isDigit_not_special)

lemma natToString_no_dash: "CHR ''-'' \<notin> set (natToString n)"
  using natToString_digits [of n] by (auto simp: list_all_iff dest: isDigit_not_special)

lemma uid_no_LF: "LF \<notin> set (uid now i)"
  by (simp add: uid_def numberToString_def natToString_no_LF)

lemma uid_no_CR: "CR \<notin> set (uid now i)"
  by (simp add: uid_def numberToString_def natToString_no_CR)

lemma fieldText_truthy: "truthy v \<Longrightarrow> fieldText v = the v"
  by (cases v) (simp_all add: truthy_def fieldText_def)

lemma blockLines_no_LF:
  "noLineFeed e \<Longrightarrow> l \<in> set (blockLines parse clock k e i) \<Longrightarrow> LF \<notin> set l"
  using fieldText_truthy [of "location e"] fieldText_truthy [of "description e"]
  by (auto simp: blockLines_def eventLines_def noLineFeed_def uid_no_LF icsValue_no_LF
      split: if_splits)

lemma allLines_no_LF:
  "\<forall>e \<in> set es. noLineFeed e \<Longrightarrow> l \<in> set (allLines parse clock k i es) \<Longrightarrow> LF \<notin> set l"
  by (induction es arbitrary: k i) (auto dest: blockLines_no_LF)

lemma linesOf_document:
  assumes "\<forall>e \<in> set es. noLineFeed e"
  shows "linesOf (unlinesLF (headerLines @ allLines parse clock 0 0 es) @ ''END:VCALENDAR'')
         = headerLines @ allLines parse clock 0 0 es @ [''END:VCALENDAR'']"
proof -
  have "\<forall>l \<in> set (headerLines @ allLines parse clock 0 0 es). LF \<notin> set l"
    using allLines_no_LF [OF assms] by (auto simp: headerLines_def)
  then show ?thesis
    using linesOf_unlinesLF [of "headerLines @ allLines parse clock 0 0 es" "''END:VCALENDAR''"]
    by simp
qed

section \<open>Clock readings and identifiers\<close>

lemma split_at_last_dash:
  assumes "a @ CHR ''-'' # b = a' @ CHR ''-'' # b'"
    and "CHR ''-'' \<notin> set b" and "CHR ''-'' \<notin> set b'"
  shows "b = b'"
  using assms
proof (induction a arbitrary: a')
  case Nil
  then show ?case by (cases a') auto
next
  case (Cons x xs)
  then show ?case by (cases a') auto
qed

lemma forEachEvent_clock_cong:
  "\<forall>j < 2 * length es. clock1 (k + j) = clock2 (k + j) \<Longrightarrow>
   forEachEvent parse clock1 k i acc es = forEachEvent parse clock2 k i acc es"
proof (induction es arbitrary: k i acc)
  case Nil
  then show ?case by simp
next
  case (Cons e es)
  have c0: "clock1 k = clock2 k" and c1: "clock1 (k + 1) = clock2 (k + 1)"
    using Cons.prems [rule_format, of 0] Cons.prems [rule_format, of 1] by simp_all
  have "\<forall>j < 2 * length es. clock1 (k + 2 + j) = clock2 (k + 2 + j)"
  proof (intro allI impI)
    fix j assume "j < 2 * length es"
    then show "clock1 (k + 2 + j) = clock2 (k + 2 + j)"
      using Cons.prems [rule_format, of "2 + j"] by (simp add: add.assoc)
  qed
  then have "forEachEvent parse clock1 (k + 2) i' acc' es
             = forEachEvent parse clock2 (k + 2) i' acc' es" for i' acc'
    by (rule Cons.IH)
  moreover have "eventText parse clock1 k e i = eventText parse clock2 k e i"
    using c0 c1 by (simp add: eventText_eq eventOk_def blockLines_def)
  ultimately show ?case by (simp split: sum.splits)
qed

section \<open>Carriage returns\<close>

lemma blockLines_no_CR:
  "noCarriageReturn e \<Longrightarrow> l \<in> set (blockLines parse clock k e i) \<Longrightarrow> CR \<notin> set l"
  using fieldText_truthy [of "location e"] fieldText_truthy [of "description e"]
  by (auto simp: blockLines_def eventLines_def noCarriageReturn_def uid_no_CR icsValue_no_CR
      split: if_splits)

lemma allLines_no_CR:
  "\<forall>e \<in> set es. noCarriageReturn e \<Longrightarrow> l \<in> set (allLines parse clock k i es)
   \<Longrightarrow> CR \<notin> set l"
  by (induction es arbitrary: k i) (auto dest: blockLines_no_CR)

lemma set_unlinesLF: "set (unlinesLF ls) = (\<Union>l \<in> set ls. set l \<union> {LF})"
  by (induction ls) auto

section \<open>The lines of an event\<close>

lemma startsWith_append_self [simp]: "startsWith p (p @ s)"
  by (simp add: startsWith_def)

lemma startsWith_Nil [simp]: "startsWith (c # p) [] = False"
  by (simp add: startsWith_def)

lemma blockLines_markers:
  "filter eventMarker (blockLines parse clock k e i)
   = [''BEGIN:VEVENT'', ''SUMMARY:'' @ title e, ''END:VEVENT'']"
  by (simp add: blockLines_def eventLines_def eventMarker_def startsWith_def)

lemma blockLines_begin:
  "filter (\<lambda>l. l = ''BEGIN:VEVENT'') (blockLines parse clock k e i) = [''BEGIN:VEVENT'']"
  by (simp add: blockLines_def eventLines_def)

lemma blockLines_end:
  "filter (\<lambda>l. l = ''END:VEVENT'') (blockLines parse clock k e i) = [''END:VEVENT'']"
  by (simp add: blockLines_def eventLines_def)

lemma allLines_markers:
  "filter eventMarker (allLines parse clock k i es)
   = concat (map (\<lambda>e. [''BEGIN:VEVENT'', ''SUMMARY:'' @ title e, ''END:VEVENT'']) es)"
  by (induction es arbitrary: k i) (simp_all add: blockLines_markers)

lemma allLines_begin:
  "length (filter (\<lambda>l. l = ''BEGIN:VEVENT'') (allLines parse clock k i es)) = length es"
  by (induction es arbitrary: k i) (simp_all add: blockLines_begin)

lemma allLines_end:
  "length (filter (\<lambda>l. l = ''END:VEVENT'') (allLines parse clock k i es)) = length es"
  by (induction es arbitrary: k i) (simp_all add: blockLines_end)

lemma blockLines_location:
  "filter (startsWith ''LOCATION:'') (blockLines parse clock k e i)
   = (if truthy (location e) then [''LOCATION:'' @ the (location e)] else [])"
  by (simp add: blockLines_def eventLines_def startsWith_def)

lemma blockLines_description:
  "filter (startsWith ''DESCRIPTION:'') (blockLines parse clock k e i)
   = (if truthy (description e) then [''DESCRIPTION:'' @ the (description e)] else [])"
  by (simp add: blockLines_def eventLines_def startsWith_def)

lemma linesOf_block:
  assumes "noLineFeed e"
  shows "linesOf (unlinesLF (blockLines parse clock k e i)) = blockLines parse clock k e i @ [[]]"
  using linesOf_unlinesLF [of "blockLines parse clock k e i" "[]"] blockLines_no_LF [OF assms]
  by auto

section \<open>The decoder on generated lines\<close>

lemma decodeLines_header:
  "decodeLines None (headerLines @ rest) = decodeLines None rest"
  by (simp add: headerLines_def)

lemma decodeLines_block:
  "decodeLines cur (blockLines parse clock k e i @ rest)
   = normalized parse e # decodeLines None rest"
  by (cases "location e"; cases "description e")
    (simp_all add: blockLines_def eventLines_def decodeProperty_def startsWith_def
      emptyEvent_def normalized_def truthy_def icsValue_utcOf [symmetric])

lemma decodeLines_allLines:
  "decodeLines None (allLines parse clock k i es @ [''END:VCALENDAR''])
   = map (normalized parse) es"
  by (induction es arbitrary: k i) (simp_all add: decodeLines_block)

section \<open>The UID lines\<close>

lemma blockLines_uid:
  "filter (startsWith ''UID:'') (blockLines parse clock k e i) = [''UID:'' @ uid (clock k) i]"
  by (simp add: blockLines_def eventLines_def startsWith_def)

lemma allLines_uid:
  "filter (startsWith ''UID:'') (allLines parse clock k i es)
   = map (\<lambda>j. ''UID:'' @ uid (clock (k + 2 * j)) (i + j)) [0..<length es]"
proof (induction es arbitrary: k i)
  case Nil
  then show ?case by simp
next
  case (Cons e es)
  have "map (\<lambda>j. ''UID:'' @ uid (clock (k + 2 * j)) (i + j)) [0..<Suc (length es)]
        = (''UID:'' @ uid (clock k) i)
          # map (\<lambda>j. ''UID:'' @ uid (clock (k + 2 + 2 * j)) (i + 1 + j)) [0..<length es]"
    by (simp add: upt_conv_Cons map_Suc_upt [symmetric] del: upt_Suc)
  then show ?case
    using Cons.IH [of "k + 2" "i + 1"] by (simp add: blockLines_uid)
qed

lemma uid_differ: "i \<noteq> j \<Longrightarrow> uid a i \<noteq> uid b j"
proof
  assume ne: "i \<noteq> j" and "uid a i = uid b j"
  then have "numberToString a @ CHR ''-'' # natToString i
             = numberToString b @ CHR ''-'' # natToString j"
    by (simp add: uid_def)
  then have "natToString i = natToString j"
    using split_at_last_dash natToString_no_dash by blast
  then show False
    using ne natToString_inj by blast
qed

lemma linesOf_document_uid:
  assumes "\<forall>e \<in> set es. noLineFeed e"
  shows "filter (startsWith ''UID:'')
           (linesOf (unlinesLF (headerLines @ allLines parse clock 0 0 es) @ ''END:VCALENDAR''))
         = filter (startsWith ''UID:'') (allLines parse clock 0 0 es)"
  unfolding linesOf_document [OF assms] by (simp add: headerLines_def startsWith_def)

section \<open>The generator in its component\<close>

lemma forEachInWorld_result:
  "fst (forEachInWorld parse clock i acc es w) = forEachEvent parse clock (readings w) i acc es"
  by (induction es arbitrary: i acc w) (simp_all add: passInWorld_def split: sum.splits)

lemma forEachInWorld_component:
  "component (snd (forEachInWorld parse clock i acc es w)) = component w"
  by (induction es arbitrary: i acc w) (simp_all add: passInWorld_def split: sum.splits)

lemma forEachInWorld_readings:
  "readings (snd (forEachInWorld parse clock i acc es w)) \<le> readings w + 2 * length es
   \<and> (\<forall>c. fst (forEachInWorld parse clock i acc es w) = Inr c \<longrightarrow>
        readings (snd (forEachInWorld parse clock i acc es w)) = readings w + 2 * length es)"
proof (induction es arbitrary: i acc w)
  case Nil
  then show ?case by simp
next
  case (Cons e es)
  show ?case
  proof (cases "eventText parse clock (readings w) e i")
    case (Inl x)
    then show ?thesis by (simp add: passInWorld_def)
  next
    case (Inr block)
    then show ?thesis
      using Cons.IH [of "i + 1" "acc @ block" "w\<lparr>readings := readings w + 2\<rparr>"]
      by (simp add: passInWorld_def)
  qed
qed

lemma eventText_shift:
  "eventText parse clock (r + k) e i = eventText parse (\<lambda>j. clock (r + j)) k e i"
  by (simp add: eventText_eq eventOk_def blockLines_def add.assoc)

lemma forEachEvent_shift:
  "forEachEvent parse clock (r + k) i acc es = forEachEvent parse (\<lambda>j. clock (r + j)) k i acc es"
proof (induction es arbitrary: k i acc)
  case Nil
  then show ?case by simp
next
  case (Cons e es)
  show ?case
    using Cons.IH [of "k + 2"] eventText_shift [of parse clock r k e i]
    by (simp add: add.assoc split: sum.splits)
qed

lemma generateICSInWorld_result:
  "fst (generateICSInWorld parse clock w)
   = generateICS parse (\<lambda>k. clock (readings w + k)) (events' (component w))"
proof -
  obtain r w' where run: "forEachInWorld parse clock 0 header (events' (component w)) w = (r, w')"
    by (cases "forEachInWorld parse clock 0 header (events' (component w)) w")
  have "r = forEachEvent parse (\<lambda>k. clock (readings w + k)) 0 0 header (events' (component w))"
    using forEachInWorld_result [of parse clock 0 header "events' (component w)" w]
      forEachEvent_shift [of parse clock "readings w" 0 0 header "events' (component w)"] run
    by simp
  then have "forEachEvent parse (\<lambda>k. clock (readings w + k)) 0 0 header (events' (component w)) = r"
    by simp
  then show ?thesis
    by (cases r) (simp_all add: generateICSInWorld_def generateICS_def run)
qed

lemma generateICSInWorld_component:
  "component (snd (generateICSInWorld parse clock w)) = component w"
proof -
  obtain r w' where run: "forEachInWorld parse clock 0 header (events' (component w)) w = (r, w')"
    by (cases "forEachInWorld parse clock 0 header (events' (component w)) w")
  have "component w' = component w"
    using forEachInWorld_component [of parse clock 0 header "events' (component w)" w] run by simp
  then show ?thesis
    by (cases r) (simp_all add: generateICSInWorld_def run)
qed

lemma generateICSInWorld_readings:
  "readings (snd (generateICSInWorld parse clock w))
     \<le> readings w + 2 * length (events' (component w))
   \<and> (\<forall>doc. fst (generateICSInWorld parse clock w) = Inr doc \<longrightarrow>
        readings (snd (generateICSInWorld parse clock w))
          = readings w + 2 * length (events' (component w)))"
proof -
  obtain r w' where run: "forEachInWorld parse clock 0 header (events' (component w)) w = (r, w')"
    by (cases "forEachInWorld parse clock 0 header (events' (component w)) w")
  show ?thesis
    using forEachInWorld_readings [of parse clock 0 header "events' (component w)" w] run
    by (cases r) (simp_all add: generateICSInWorld_def)
qed

section \<open>UTF-8 and UTF-16\<close>

lemma mod_4096: "(c::nat) div 64 mod 64 * 64 + c mod 64 = c mod 4096"
  using mod_mult2_eq [of c 64 64] by simp

lemma mod_262144: "(c::nat) div 4096 mod 64 * 4096 + c div 64 mod 64 * 64 + c mod 64 = c mod 262144"
  using mod_mult2_eq [of c 4096 64] mod_4096 [of c] by simp

lemma utf8Decode_two:
  "q < 32 \<Longrightarrow> utf8Decode ((192 + q) # (128 + r) # bs) = (q * 64 + r) # utf8Decode bs"
  by simp

lemma utf8Decode_three:
  "q < 16 \<Longrightarrow>
   utf8Decode ((224 + q) # (128 + r) # (128 + t) # bs) = (q * 4096 + r * 64 + t) # utf8Decode bs"
  by simp

lemma utf8Decode_four:
  "utf8Decode ((240 + q) # (128 + r) # (128 + t) # (128 + v) # bs)
   = (q * 262144 + r * 4096 + t * 64 + v) # utf8Decode bs"
  by simp

lemma utf8Decode_utf8:
  "utf8Decode (utf8 c @ bs) = c # utf8Decode bs"
proof -
  consider "c < 128" | "128 \<le> c" "c < 2048" | "2048 \<le> c" "c < 65536" | "65536 \<le> c"
    by linarith
  then show ?thesis
  proof cases
    case 1
    then show ?thesis by (simp add: utf8_def)
  next
    case 2
    define q where "q = c div 64"
    define r where "r = c mod 64"
    have "q < 32" using 2 by (simp add: q_def)
    moreover have "q * 64 + r = c" by (simp add: q_def r_def)
    moreover have "utf8 c = [192 + q, 128 + r]" using 2 by (simp add: utf8_def q_def r_def)
    ultimately show ?thesis using utf8Decode_two [of q r bs] by simp
  next
    case 3
    define q where "q = c div 4096"
    define r where "r = c div 64 mod 64"
    define t where "t = c mod 64"
    have "q < 16" using 3 by (simp add: q_def)
    moreover have "q * 4096 + r * 64 + t = c"
      unfolding q_def r_def t_def using mod_4096 [of c] div_mult_mod_eq [of c 4096] by linarith
    moreover have "utf8 c = [224 + q, 128 + r, 128 + t]"
      using 3 by (simp add: utf8_def q_def r_def t_def)
    ultimately show ?thesis using utf8Decode_three [of q r t bs] by simp
  next
    case 4
    define q where "q = c div 262144"
    define r where "r = c div 4096 mod 64"
    define t where "t = c div 64 mod 64"
    define v where "v = c mod 64"
    have "q * 262144 + r * 4096 + t * 64 + v = c"
      unfolding q_def r_def t_def v_def
      using mod_262144 [of c] div_mult_mod_eq [of c 262144] by linarith
    moreover have "utf8 c = [240 + q, 128 + r, 128 + t, 128 + v]"
      using 4 by (simp add: utf8_def q_def r_def t_def v_def)
    ultimately show ?thesis using utf8Decode_four [of q r t v bs] by simp
  qed
qed

lemma utf8Decode_concat: "utf8Decode (concat (map utf8 cs)) = cs"
  by (induction cs) (simp_all add: utf8Decode_utf8)

lemma utf16Units_scalarValues:
  "wellFormed s \<Longrightarrow> concat (map utf16Units (scalarValues s)) = s"
proof (induction s rule: scalarValues.induct)
  case 1
  then show ?case by simp
next
  case (2 u)
  then show ?case by (simp add: utf16Units_def)
next
  case (3 u v rest)
  show ?case
  proof (cases "highSurrogate u")
    case True
    then have low: "lowSurrogate v" and rest: "wellFormed rest" using "3.prems" by simp_all
    define a where "a = u - 55296"
    define b where "b = v - 56320"
    have u: "u = 55296 + a" and v: "v = 56320 + b" and b: "b < 1024"
      using True low unfolding a_def b_def highSurrogate_def lowSurrogate_def by linarith+
    have "utf16Units (65536 + a * 1024 + b) = [u, v]"
      using b by (simp add: utf16Units_def u v)
    then show ?thesis
      using True low rest "3.IH"(1) by (simp add: a_def b_def)
  next
    case False
    then show ?thesis
      using "3.prems" "3.IH"(2) by (simp add: utf16Units_def)
  qed
qed

lemma scalarValues_ascii:
  "list_all (\<lambda>u. u < 128) s \<Longrightarrow> concat (map utf8 (scalarValues s)) = s"
  by (induction s rule: scalarValues.induct)
    (simp_all add: utf8_def highSurrogate_def lowSurrogate_def)

section \<open>The example host, evaluated\<close>

lemma replicate_numeral: "replicate (numeral n) c = c # replicate (pred_numeral n) c"
  by (simp add: numeral_eq_Suc)

lemmas date_defs = isoString_def YearFromTime_def Day_def msPerDay_def DayFromYear_def
  DaysInYear_def InLeapYear_def DayWithinYear_def MonthFromTime_def DateFromTime_def
  HourFromTime_def MinFromTime_def SecFromTime_def msFromTime_def yearString_def padStart_def
  natToString.simps digitChar_def Let_def replicate_numeral

lemma isoString_new_year: "isoString 1735689600000 = ''2025-01-01T00:00:00.000Z''"
  by (simp add: date_defs)

lemma isoString_one_second: "isoString 1735689601000 = ''2025-01-01T00:00:01.000Z''"
  by (simp add: date_defs)

lemma isoString_nine: "isoString 1741597200000 = ''2025-03-10T09:00:00.000Z''"
  by (simp add: date_defs)

lemma isoString_half_past_ten: "isoString 1741602600000 = ''2025-03-10T10:30:00.000Z''"
  by (simp add: date_defs)

lemma isoString_year_10000: "isoString 253402300800000 = ''+010000-01-01T00:00:00.000Z''"
  by (simp add: date_defs)

lemma YearFromTime_examples:
  "YearFromTime 1735689600000 = 2025" "YearFromTime 1735689601000 = 2025"
  "YearFromTime 1741597200000 = 2025" "YearFromTime 1741602600000 = 2025"
  "YearFromTime 253402300800000 = 10000"
  by (simp_all add: YearFromTime_def Day_def msPerDay_def DayFromYear_def)

lemma newDate_examples:
  "newDate exampleParse ''2025-03-10T09:00:00'' = Some 1741597200000"
  "newDate exampleParse ''2025-03-10T10:30:00'' = Some 1741602600000"
  "newDate exampleParse ''2025-01-01T00:00:00.000Z'' = Some 1735689600000"
  "newDate exampleParse ''2025-01-01T00:00:01.000Z'' = Some 1735689601000"
  "newDate exampleParse ''+010000-01-01T00:00:00.000Z'' = Some 253402300800000"
  "newDate exampleParse ''next Tuesday'' = None"
  by (simp_all add: newDate_def exampleParse_def TimeClip_def)

lemma parses_examples:
  "parses exampleParse ''2025-03-10T09:00:00''"
  "parses exampleParse ''2025-03-10T10:30:00''"
  "parses exampleParse ''2025-01-01T00:00:00.000Z''"
  "parses exampleParse ''2025-01-01T00:00:01.000Z''"
  "parses exampleParse ''+010000-01-01T00:00:00.000Z''"
  "\<not> parses exampleParse ''next Tuesday''"
  by (simp_all add: parses_def newDate_examples)

lemma icsValue_examples:
  "icsValue exampleParse ''2025-03-10T09:00:00'' = ''20250310T090000Z''"
  "icsValue exampleParse ''2025-03-10T10:30:00'' = ''20250310T103000Z''"
  "icsValue exampleParse ''2025-01-01T00:00:00.000Z'' = ''20250101T000000Z''"
  "icsValue exampleParse ''2025-01-01T00:00:01.000Z'' = ''20250101T000001Z''"
  "icsValue exampleParse ''+010000-01-01T00:00:00.000Z'' = ''+0100000101T000000Z''"
  by (simp_all add: icsValue_def formatDateToICS_Some newDate_examples isoString_new_year
      isoString_one_second isoString_nine isoString_half_past_ten isoString_year_10000
      splitDotFirst_def)

lemma uid_examples:
  "uid 1735689600000 0 = ''1735689600000-0@calendar-converter''"
  "uid 1735689600000 1 = ''1735689600000-1@calendar-converter''"
  "uid 253402300800000 0 = ''253402300800000-0@calendar-converter''"
  by (simp_all add: uid_def numberToString_def natToString.simps digitChar_def)

lemma utcBasic_examples:
  "utcBasic 1735689600000 = ''20250101T000000Z''"
  "utcBasic 1741597200000 = ''20250310T090000Z''"
  "utcBasic 1741602600000 = ''20250310T103000Z''"
  by (simp_all add: utcBasic_def date_defs)

lemma generateICS_midterm:
  "generateICS exampleParse exampleClock [midterm] =
     Inr (''BEGIN:VCALENDAR'' @ [LF] @ ''VERSION:2.0'' @ [LF]
          @ ''PRODID:-//Calendar Photo Converter//EN'' @ [LF]
          @ ''BEGIN:VEVENT'' @ [LF]
          @ ''UID:1735689600000-0@calendar-converter'' @ [LF]
          @ ''DTSTAMP:20250101T000000Z'' @ [LF]
          @ ''DTSTART:20250310T090000Z'' @ [LF]
          @ ''DTEND:20250310T103000Z'' @ [LF]
          @ ''SUMMARY:Midterm'' @ [LF]
          @ ''END:VEVENT'' @ [LF]
          @ ''END:VCALENDAR'')"
  by (simp add: generateICS_eq eventOk_def exampleClock_def midterm_def isoString_new_year
      parses_examples blockLines_def eventLines_def icsValue_examples uid_examples
      headerLines_def truthy_def)

lemma lecture_block:
  "eventText exampleParse exampleClock 0 lecture 0 =
     Inr (''BEGIN:VEVENT'' @ [LF]
          @ ''UID:1735689600000-0@calendar-converter'' @ [LF]
          @ ''DTSTAMP:20250101T000000Z'' @ [LF]
          @ ''DTSTART:20250310T090000Z'' @ [LF]
          @ ''DTEND:20250310T103000Z'' @ [LF]
          @ ''SUMMARY:Lecture'' @ [LF]
          @ ''LOCATION:Room 5'' @ [LF]
          @ ''END:VEVENT'' @ [LF])"
  by (simp add: eventText_eq eventOk_def exampleClock_def lecture_def isoString_new_year
      parses_examples blockLines_def eventLines_def icsValue_examples uid_examples truthy_def)

section \<open>Properties\<close>

subsection \<open>The shape of the document\<close>

text \<open>
  C1 (as the code has it). A document that \<open>generateICS\<close> returns is made of the lines
  the generator writes, each followed by a line feed: the header lines, then for every
  event, in the order of the input, a block that has one \<open>BEGIN:VEVENT\<close>, the summary of
  the event and one \<open>END:VEVENT\<close>, then \<open>END:VCALENDAR\<close>. It begins with the header block
  and ends with \<open>END:VCALENDAR\<close>. When no text of an event holds a line feed, the lines
  of the document are the lines written: they hold exactly one \<open>BEGIN:VEVENT\<close> and one
  \<open>END:VEVENT\<close> for every event, and the marking lines come in the order of the input.
\<close>

theorem generateICS_structure:
  assumes "generateICS parse clock events = Inr doc"
  shows "doc = unlinesLF (headerLines @ allLines parse clock 0 0 events) @ ''END:VCALENDAR''
         \<and> filter eventMarker (allLines parse clock 0 0 events)
             = concat (map (\<lambda>e. [''BEGIN:VEVENT'', ''SUMMARY:'' @ title e, ''END:VEVENT''])
                 events)
         \<and> startsWith header doc
         \<and> drop (length doc - 13) doc = ''END:VCALENDAR''
         \<and> ((\<forall>e \<in> set events. noLineFeed e) \<longrightarrow>
              length (filter (\<lambda>l. l = ''BEGIN:VEVENT'') (linesOf doc)) = length events
              \<and> length (filter (\<lambda>l. l = ''END:VEVENT'') (linesOf doc)) = length events
              \<and> filter eventMarker (linesOf doc)
                  = concat (map (\<lambda>e. [''BEGIN:VEVENT'', ''SUMMARY:'' @ title e, ''END:VEVENT''])
                      events))"
proof -
  have doc: "doc = unlinesLF (headerLines @ allLines parse clock 0 0 events) @ ''END:VCALENDAR''"
    using assms by (simp add: generateICS_eq split: if_splits)
  have "startsWith header doc"
    by (simp add: doc header_lines)
  moreover have "drop (length doc - 13) doc = ''END:VCALENDAR''"
    by (simp add: doc)
  moreover have "length (filter (\<lambda>l. l = ''BEGIN:VEVENT'') (linesOf doc)) = length events
      \<and> length (filter (\<lambda>l. l = ''END:VEVENT'') (linesOf doc)) = length events
      \<and> filter eventMarker (linesOf doc)
          = concat (map (\<lambda>e. [''BEGIN:VEVENT'', ''SUMMARY:'' @ title e, ''END:VEVENT'']) events)"
    if "\<forall>e \<in> set events. noLineFeed e"
  proof -
    have "linesOf doc = headerLines @ allLines parse clock 0 0 events @ [''END:VCALENDAR'']"
      unfolding doc by (rule linesOf_document [OF that])
    then show ?thesis
      by (simp add: allLines_begin allLines_end allLines_markers)
        (simp add: headerLines_def eventMarker_def startsWith_def)
  qed
  ultimately show ?thesis
    using doc allLines_markers [of parse clock 0 0 events] by blast
qed

theorem generateICS_structure_witness:
  "generateICS exampleParse exampleClock [midterm, backwards] \<noteq> Inl RangeError
   \<and> noLineFeed midterm \<and> noLineFeed backwards
   \<and> (case generateICS exampleParse exampleClock [midterm, backwards] of
         Inl e \<Rightarrow> False
       | Inr doc \<Rightarrow>
           startsWith header doc
           \<and> drop (length doc - 13) doc = ''END:VCALENDAR''
           \<and> length (filter (\<lambda>l. l = ''BEGIN:VEVENT'') (linesOf doc)) = 2
           \<and> length (filter (\<lambda>l. l = ''END:VEVENT'') (linesOf doc)) = 2
           \<and> filter eventMarker (linesOf doc)
               = [''BEGIN:VEVENT'', ''SUMMARY:Midterm'', ''END:VEVENT'',
                  ''BEGIN:VEVENT'', ''SUMMARY:Backwards'', ''END:VEVENT''])"
proof -
  have ok: "allOk exampleParse exampleClock 0 [midterm, backwards]"
    by (simp add: eventOk_def exampleClock_def isoString_new_year parses_examples midterm_def
        backwards_def)
  then obtain doc where doc: "generateICS exampleParse exampleClock [midterm, backwards] = Inr doc"
    by (simp add: generateICS_eq)
  have lf: "\<forall>e \<in> set [midterm, backwards]. noLineFeed e"
    by (simp add: noLineFeed_def midterm_def backwards_def fieldText_def)
  have "startsWith header doc \<and> drop (length doc - 13) doc = ''END:VCALENDAR''
      \<and> length (filter (\<lambda>l. l = ''BEGIN:VEVENT'') (linesOf doc)) = length [midterm, backwards]
      \<and> length (filter (\<lambda>l. l = ''END:VEVENT'') (linesOf doc)) = length [midterm, backwards]
      \<and> filter eventMarker (linesOf doc)
          = concat (map (\<lambda>e. [''BEGIN:VEVENT'', ''SUMMARY:'' @ title e, ''END:VEVENT''])
              [midterm, backwards])"
    using generateICS_structure [OF doc] lf by blast
  then show ?thesis
    using lf by (simp add: doc) (simp add: midterm_def backwards_def)
qed

text \<open>
  C1 as stated. Without the condition on line feeds the count fails: the description of this one event
  has a second line reading \<open>BEGIN:VEVENT\<close>, and the document has two such lines.
\<close>

theorem begin_count_counterexample:
  "generateICS exampleParse exampleClock [injected] =
     Inr (''BEGIN:VCALENDAR'' @ [LF] @ ''VERSION:2.0'' @ [LF]
          @ ''PRODID:-//Calendar Photo Converter//EN'' @ [LF]
          @ ''BEGIN:VEVENT'' @ [LF]
          @ ''UID:1735689600000-0@calendar-converter'' @ [LF]
          @ ''DTSTAMP:20250101T000000Z'' @ [LF]
          @ ''DTSTART:20250310T090000Z'' @ [LF]
          @ ''DTEND:20250310T103000Z'' @ [LF]
          @ ''SUMMARY:Lab'' @ [LF]
          @ ''DESCRIPTION:Bring:'' @ [LF]
          @ ''BEGIN:VEVENT'' @ [LF]
          @ ''END:VEVENT'' @ [LF]
          @ ''END:VCALENDAR'')
   \<and> length (filter (\<lambda>l. l = ''BEGIN:VEVENT'')
         (linesOf (''BEGIN:VCALENDAR'' @ [LF] @ ''VERSION:2.0'' @ [LF]
          @ ''PRODID:-//Calendar Photo Converter//EN'' @ [LF]
          @ ''BEGIN:VEVENT'' @ [LF]
          @ ''UID:1735689600000-0@calendar-converter'' @ [LF]
          @ ''DTSTAMP:20250101T000000Z'' @ [LF]
          @ ''DTSTART:20250310T090000Z'' @ [LF]
          @ ''DTEND:20250310T103000Z'' @ [LF]
          @ ''SUMMARY:Lab'' @ [LF]
          @ ''DESCRIPTION:Bring:'' @ [LF]
          @ ''BEGIN:VEVENT'' @ [LF]
          @ ''END:VEVENT'' @ [LF]
          @ ''END:VCALENDAR''))) = 2
   \<and> length [injected] = 1"
  by (simp add: generateICS_eq eventOk_def exampleClock_def injected_def isoString_new_year
      parses_examples blockLines_def eventLines_def icsValue_examples uid_examples
      headerLines_def truthy_def)

subsection \<open>The form of the times\<close>

text \<open>
  C2 (as the code has it). When the start and the end of an event are parsed to times whose
  UTC year has four digits, and the clock reading taken for DTSTAMP is such a time as
  well and is read back by the host, the pass for the event succeeds and the three values
  it writes after \<open>DTSTAMP:\<close>, \<open>DTSTART:\<close> and \<open>DTEND:\<close> are the times in the form
  \<open>YYYYMMDDTHHMMSSZ\<close>, each matching \<open>^\d{8}T\d{6}Z$\<close>.
\<close>

theorem eventText_times_basic_utc:
  assumes "newDate parse (start e) = Some ts" and "newDate parse (end' e) = Some te"
    and "newDate parse (isoString (clock (k + 1))) = Some (clock (k + 1))"
    and "0 \<le> YearFromTime ts" and "YearFromTime ts \<le> 9999"
    and "0 \<le> YearFromTime te" and "YearFromTime te \<le> 9999"
    and "0 \<le> YearFromTime (clock (k + 1))" and "YearFromTime (clock (k + 1)) \<le> 9999"
  shows "eventText parse clock k e i =
           Inr (eventBlock (uid (clock k) i) (utcBasic (clock (k + 1))) (utcBasic ts)
                  (utcBasic te) e)
         \<and> basicUtcPattern (utcBasic (clock (k + 1)))
         \<and> basicUtcPattern (utcBasic ts) \<and> basicUtcPattern (utcBasic te)"
  using assms
  by (simp add: eventText_def toISOString_def formatDateToICS_utcBasic basicUtcPattern_utcBasic)

theorem eventText_times_basic_utc_witness:
  "eventText exampleParse exampleClock 0 midterm 0 =
     Inr (eventBlock ''1735689600000-0@calendar-converter'' ''20250101T000000Z''
            ''20250310T090000Z'' ''20250310T103000Z'' midterm)
   \<and> basicUtcPattern ''20250101T000000Z'' \<and> basicUtcPattern ''20250310T090000Z''
   \<and> basicUtcPattern ''20250310T103000Z''"
  using eventText_times_basic_utc [of exampleParse midterm 1741597200000 1741602600000
      exampleClock 0 0]
  by (simp add: midterm_def exampleClock_def newDate_examples isoString_new_year
      YearFromTime_examples utcBasic_examples uid_examples)

text \<open>
  C2 as stated asks for four-digit years of start and end only. With the clock
  in the year 10000 the DTSTAMP value of an event of March 2025 has an expanded year and
  does not match the pattern.
\<close>

theorem dtstamp_pattern_counterexample:
  "newDate exampleParse (start midterm) = Some 1741597200000
   \<and> YearFromTime 1741597200000 = 2025
   \<and> newDate exampleParse (end' midterm) = Some 1741602600000
   \<and> YearFromTime 1741602600000 = 2025
   \<and> generateICS exampleParse farClock [midterm] =
       Inr (''BEGIN:VCALENDAR'' @ [LF] @ ''VERSION:2.0'' @ [LF]
            @ ''PRODID:-//Calendar Photo Converter//EN'' @ [LF]
            @ ''BEGIN:VEVENT'' @ [LF]
            @ ''UID:253402300800000-0@calendar-converter'' @ [LF]
            @ ''DTSTAMP:+0100000101T000000Z'' @ [LF]
            @ ''DTSTART:20250310T090000Z'' @ [LF]
            @ ''DTEND:20250310T103000Z'' @ [LF]
            @ ''SUMMARY:Midterm'' @ [LF]
            @ ''END:VEVENT'' @ [LF]
            @ ''END:VCALENDAR'')
   \<and> \<not> basicUtcPattern ''+0100000101T000000Z''"
  by (simp add: midterm_def newDate_examples YearFromTime_examples generateICS_eq eventOk_def
      farClock_def isoString_year_10000 parses_examples blockLines_def eventLines_def
      icsValue_examples uid_examples headerLines_def truthy_def basicUtcPattern_def)

subsection \<open>Failure\<close>

text \<open>
  C3. Provided the host reads back the ISO strings it wrote for the clock's readings (the
  standard promises it), the generator throws, and what it throws is the \<open>RangeError\<close> of
  \<open>toISOString\<close>, exactly when the start or the end of some event is not parsed as a valid
  time; otherwise it returns a document. The order of start and end plays no part.
\<close>

theorem generateICS_fails_iff:
  assumes host: "\<forall>k. parses parse (isoString (clock k))"
  shows "(generateICS parse clock events = Inl RangeError \<longleftrightarrow>
            (\<exists>e \<in> set events. \<not> parses parse (start e) \<or> \<not> parses parse (end' e)))
         \<and> ((\<exists>doc. generateICS parse clock events = Inr doc) \<longleftrightarrow>
            (\<forall>e \<in> set events. parses parse (start e) \<and> parses parse (end' e)))"
proof -
  have ok: "allOk parse clock k es \<longleftrightarrow>
            (\<forall>e \<in> set es. parses parse (start e) \<and> parses parse (end' e))" for k es
    using host by (induction es arbitrary: k) (auto simp: eventOk_def)
  show ?thesis
    by (auto simp: generateICS_eq ok)
qed

theorem generateICS_fails_iff_witness:
  "(\<forall>k. parses exampleParse (isoString (exampleClock k)))
   \<and> (\<exists>doc. generateICS exampleParse exampleClock [midterm, backwards] = Inr doc)
   \<and> generateICS exampleParse exampleClock [midterm, undated] = Inl RangeError"
proof -
  have host: "\<forall>k. parses exampleParse (isoString (exampleClock k))"
    by (simp add: exampleClock_def isoString_new_year parses_examples)
  have "\<exists>doc. generateICS exampleParse exampleClock [midterm, backwards] = Inr doc"
    using generateICS_fails_iff [OF host, of "[midterm, backwards]"]
    by (simp add: midterm_def backwards_def parses_examples)
  moreover have "generateICS exampleParse exampleClock [midterm, undated] = Inl RangeError"
    using generateICS_fails_iff [OF host, of "[midterm, undated]"]
    by (simp add: midterm_def undated_def parses_examples)
  ultimately show ?thesis
    using host by blast
qed

subsection \<open>The empty calendar\<close>

text \<open>
  C5. Encoding no events is not an error: the result is the header followed by
  \<open>END:VCALENDAR\<close>, four lines among which there is no \<open>BEGIN:VEVENT\<close> and no
  \<open>END:VEVENT\<close>.
\<close>

theorem generateICS_empty:
  "generateICS parse clock [] =
     Inr (''BEGIN:VCALENDAR'' @ [LF] @ ''VERSION:2.0'' @ [LF]
          @ ''PRODID:-//Calendar Photo Converter//EN'' @ [LF] @ ''END:VCALENDAR'')
   \<and> linesOf (''BEGIN:VCALENDAR'' @ [LF] @ ''VERSION:2.0'' @ [LF]
          @ ''PRODID:-//Calendar Photo Converter//EN'' @ [LF] @ ''END:VCALENDAR'')
       = [''BEGIN:VCALENDAR'', ''VERSION:2.0'', ''PRODID:-//Calendar Photo Converter//EN'',
          ''END:VCALENDAR'']"
  by (simp add: generateICS_def header_def)

subsection \<open>Optional lines\<close>

text \<open>
  C6 (as the code has it). Among the lines the generator writes for an event there is a
  \<open>LOCATION:\<close> line only when the location is present and not empty, and then it is the
  one line \<open>LOCATION:\<close> followed by the location; likewise for the description and
  \<open>DESCRIPTION:\<close>. When no text of the event holds a line feed, the lines written are
  the lines of the text of the block (with nothing after its last line feed), so that the
  same holds of the block as it is read.
\<close>

theorem optional_lines:
  assumes "eventText parse clock k e i = Inr block"
  shows "block = unlinesLF (blockLines parse clock k e i)
         \<and> (location e = None \<or> location e = Some [] \<longrightarrow>
            filter (startsWith ''LOCATION:'') (blockLines parse clock k e i) = [])
         \<and> (\<forall>s. location e = Some s \<and> s \<noteq> [] \<longrightarrow>
            filter (startsWith ''LOCATION:'') (blockLines parse clock k e i) = [''LOCATION:'' @ s])
         \<and> (description e = None \<or> description e = Some [] \<longrightarrow>
            filter (startsWith ''DESCRIPTION:'') (blockLines parse clock k e i) = [])
         \<and> (\<forall>s. description e = Some s \<and> s \<noteq> [] \<longrightarrow>
            filter (startsWith ''DESCRIPTION:'') (blockLines parse clock k e i)
              = [''DESCRIPTION:'' @ s])
         \<and> (noLineFeed e \<longrightarrow>
            linesOf block = blockLines parse clock k e i @ [[]]
            \<and> filter (startsWith ''LOCATION:'') (linesOf block)
                = filter (startsWith ''LOCATION:'') (blockLines parse clock k e i)
            \<and> filter (startsWith ''DESCRIPTION:'') (linesOf block)
                = filter (startsWith ''DESCRIPTION:'') (blockLines parse clock k e i))"
proof -
  have block: "block = unlinesLF (blockLines parse clock k e i)"
    using assms by (simp add: eventText_eq split: if_splits)
  have "linesOf block = blockLines parse clock k e i @ [[]]" if "noLineFeed e"
    using linesOf_block [OF that] block by simp
  then show ?thesis
    using block by (auto simp: blockLines_location blockLines_description truthy_def)
qed

theorem optional_lines_witness:
  "eventText exampleParse exampleClock 0 lecture 0 =
     Inr (''BEGIN:VEVENT'' @ [LF]
          @ ''UID:1735689600000-0@calendar-converter'' @ [LF]
          @ ''DTSTAMP:20250101T000000Z'' @ [LF]
          @ ''DTSTART:20250310T090000Z'' @ [LF]
          @ ''DTEND:20250310T103000Z'' @ [LF]
          @ ''SUMMARY:Lecture'' @ [LF]
          @ ''LOCATION:Room 5'' @ [LF]
          @ ''END:VEVENT'' @ [LF])
   \<and> noLineFeed lecture
   \<and> location lecture = Some ''Room 5'' \<and> description lecture = Some []
   \<and> filter (startsWith ''LOCATION:'')
        (linesOf (''BEGIN:VEVENT'' @ [LF]
          @ ''UID:1735689600000-0@calendar-converter'' @ [LF]
          @ ''DTSTAMP:20250101T000000Z'' @ [LF]
          @ ''DTSTART:20250310T090000Z'' @ [LF]
          @ ''DTEND:20250310T103000Z'' @ [LF]
          @ ''SUMMARY:Lecture'' @ [LF]
          @ ''LOCATION:Room 5'' @ [LF]
          @ ''END:VEVENT'' @ [LF])) = [''LOCATION:Room 5'']
   \<and> filter (startsWith ''DESCRIPTION:'')
        (linesOf (''BEGIN:VEVENT'' @ [LF]
          @ ''UID:1735689600000-0@calendar-converter'' @ [LF]
          @ ''DTSTAMP:20250101T000000Z'' @ [LF]
          @ ''DTSTART:20250310T090000Z'' @ [LF]
          @ ''DTEND:20250310T103000Z'' @ [LF]
          @ ''SUMMARY:Lecture'' @ [LF]
          @ ''LOCATION:Room 5'' @ [LF]
          @ ''END:VEVENT'' @ [LF])) = []"
proof -
  define block where "block = ''BEGIN:VEVENT'' @ [LF]
          @ ''UID:1735689600000-0@calendar-converter'' @ [LF]
          @ ''DTSTAMP:20250101T000000Z'' @ [LF]
          @ ''DTSTART:20250310T090000Z'' @ [LF]
          @ ''DTEND:20250310T103000Z'' @ [LF]
          @ ''SUMMARY:Lecture'' @ [LF]
          @ ''LOCATION:Room 5'' @ [LF]
          @ ''END:VEVENT'' @ [LF]"
  have b: "eventText exampleParse exampleClock 0 lecture 0 = Inr block"
    unfolding block_def by (rule lecture_block)
  have lf: "noLineFeed lecture"
    by (simp add: noLineFeed_def lecture_def fieldText_def)
  have f: "location lecture = Some ''Room 5''" "description lecture = Some []"
    by (simp_all add: lecture_def)
  have "filter (startsWith ''LOCATION:'') (linesOf block) = [''LOCATION:'' @ ''Room 5'']
        \<and> filter (startsWith ''DESCRIPTION:'') (linesOf block) = []"
    using optional_lines [OF b] lf f by auto
  then show ?thesis
    using b lf f unfolding block_def by simp
qed

text \<open>
  C6 as stated. Without the condition on line feeds an event that has no location can still produce a
  \<open>LOCATION:\<close> line: here it is the second line of the title.
\<close>

theorem location_line_counterexample:
  "location relocated = None
   \<and> eventText exampleParse exampleClock 0 relocated 0 =
       Inr (''BEGIN:VEVENT'' @ [LF]
            @ ''UID:1735689600000-0@calendar-converter'' @ [LF]
            @ ''DTSTAMP:20250101T000000Z'' @ [LF]
            @ ''DTSTART:20250310T090000Z'' @ [LF]
            @ ''DTEND:20250310T103000Z'' @ [LF]
            @ ''SUMMARY:Lab'' @ [LF]
            @ ''LOCATION:Room 5'' @ [LF]
            @ ''END:VEVENT'' @ [LF])
   \<and> filter (startsWith ''LOCATION:'')
        (linesOf (''BEGIN:VEVENT'' @ [LF]
            @ ''UID:1735689600000-0@calendar-converter'' @ [LF]
            @ ''DTSTAMP:20250101T000000Z'' @ [LF]
            @ ''DTSTART:20250310T090000Z'' @ [LF]
            @ ''DTEND:20250310T103000Z'' @ [LF]
            @ ''SUMMARY:Lab'' @ [LF]
            @ ''LOCATION:Room 5'' @ [LF]
            @ ''END:VEVENT'' @ [LF])) = [''LOCATION:Room 5'']"
  by (simp add: eventText_eq eventOk_def exampleClock_def relocated_def isoString_new_year
      parses_examples blockLines_def eventLines_def icsValue_examples uid_examples truthy_def
      startsWith_def)

subsection \<open>Line ends\<close>

text \<open>
  C9. The document is its lines, each followed by one line feed, and then
  \<open>END:VCALENDAR\<close> with nothing after it: the last character is the \<open>R\<close>, the one
  before the last line is a line feed. The generator writes no carriage return: when the
  texts of the events hold none, neither does the document, so no line ends in CR LF.
\<close>

theorem generateICS_line_feeds:
  assumes "generateICS parse clock events = Inr doc"
  shows "doc = unlinesLF (headerLines @ allLines parse clock 0 0 events) @ ''END:VCALENDAR''
         \<and> drop (length doc - 14) doc = LF # ''END:VCALENDAR''
         \<and> last doc = CHR ''R''
         \<and> ((\<forall>e \<in> set events. noCarriageReturn e) \<longrightarrow> CR \<notin> set doc)"
proof -
  define ls where "ls = headerLines @ allLines parse clock 0 0 events"
  have doc: "doc = unlinesLF ls @ ''END:VCALENDAR''"
    using assms by (simp add: generateICS_eq ls_def split: if_splits)
  have "ls \<noteq> []"
    by (simp add: ls_def headerLines_def)
  then have "unlinesLF ls = (unlinesLF (butlast ls) @ last ls) @ [LF]"
    using unlinesLF_append [of "butlast ls" "[last ls]"] by simp
  then obtain front where front: "unlinesLF ls = front @ [LF]"
    by blast
  have "drop (length doc - 14) doc = LF # ''END:VCALENDAR''"
    by (simp add: doc front)
  moreover have "last doc = CHR ''R''"
    by (simp add: doc)
  moreover have "CR \<notin> set doc" if "\<forall>e \<in> set events. noCarriageReturn e"
  proof -
    have "\<forall>l \<in> set ls. CR \<notin> set l"
      using allLines_no_CR [OF that] by (auto simp: ls_def headerLines_def)
    then show ?thesis
      by (auto simp: doc set_unlinesLF)
  qed
  ultimately show ?thesis
    using doc by (simp add: ls_def)
qed

theorem generateICS_line_feeds_witness:
  "generateICS exampleParse exampleClock [midterm] =
     Inr (''BEGIN:VCALENDAR'' @ [LF] @ ''VERSION:2.0'' @ [LF]
          @ ''PRODID:-//Calendar Photo Converter//EN'' @ [LF]
          @ ''BEGIN:VEVENT'' @ [LF]
          @ ''UID:1735689600000-0@calendar-converter'' @ [LF]
          @ ''DTSTAMP:20250101T000000Z'' @ [LF]
          @ ''DTSTART:20250310T090000Z'' @ [LF]
          @ ''DTEND:20250310T103000Z'' @ [LF]
          @ ''SUMMARY:Midterm'' @ [LF]
          @ ''END:VEVENT'' @ [LF]
          @ ''END:VCALENDAR'')
   \<and> noCarriageReturn midterm
   \<and> CR \<notin> set (''BEGIN:VCALENDAR'' @ [LF] @ ''VERSION:2.0'' @ [LF]
          @ ''PRODID:-//Calendar Photo Converter//EN'' @ [LF]
          @ ''BEGIN:VEVENT'' @ [LF]
          @ ''UID:1735689600000-0@calendar-converter'' @ [LF]
          @ ''DTSTAMP:20250101T000000Z'' @ [LF]
          @ ''DTSTART:20250310T090000Z'' @ [LF]
          @ ''DTEND:20250310T103000Z'' @ [LF]
          @ ''SUMMARY:Midterm'' @ [LF]
          @ ''END:VEVENT'' @ [LF]
          @ ''END:VCALENDAR'')"
proof -
  have cr: "noCarriageReturn midterm"
    by (simp add: noCarriageReturn_def midterm_def fieldText_def)
  show ?thesis
    using generateICS_line_feeds [OF generateICS_midterm] cr generateICS_midterm by simp
qed

subsection \<open>Identifiers\<close>

text \<open>
  C8. In a document that \<open>generateICS\<close> returns, the UID lines written are, in the order of
  the events, \<open>UID:\<close> followed by the clock reading of the pass, a dash, the position of
  the event counted from 0, and \<open>@calendar-converter\<close>; the event at position \<open>i\<close> has
  the clock's reading number \<open>2 * i\<close>. These lines are pairwise different, whatever the
  clock read: the position stands between the last dash and the \<open>@\<close>, and different
  numbers have different digits. When no text of an event holds a line feed, they are the
  lines of the document that begin with \<open>UID:\<close>.
\<close>

theorem uid_distinct:
  assumes "generateICS parse clock events = Inr doc"
  shows "doc = unlinesLF (headerLines @ allLines parse clock 0 0 events) @ ''END:VCALENDAR''
         \<and> filter (startsWith ''UID:'') (allLines parse clock 0 0 events)
             = map (\<lambda>i. ''UID:'' @ uid (clock (2 * i)) i) [0..<length events]
         \<and> distinct (map (\<lambda>i. ''UID:'' @ uid (clock (2 * i)) i) [0..<length events])
         \<and> (\<forall>i < length events. \<forall>j < length events.
               i \<noteq> j \<longrightarrow> uid (clock (2 * i)) i \<noteq> uid (clock (2 * j)) j)
         \<and> ((\<forall>e \<in> set events. noLineFeed e) \<longrightarrow>
               filter (startsWith ''UID:'') (linesOf doc)
               = map (\<lambda>i. ''UID:'' @ uid (clock (2 * i)) i) [0..<length events])"
proof -
  have doc: "doc = unlinesLF (headerLines @ allLines parse clock 0 0 events) @ ''END:VCALENDAR''"
    using assms by (simp add: generateICS_eq split: if_splits)
  have written: "filter (startsWith ''UID:'') (allLines parse clock 0 0 events)
      = map (\<lambda>i. ''UID:'' @ uid (clock (2 * i)) i) [0..<length events]"
    using allLines_uid [of parse clock 0 0 events] by simp
  have "inj_on (\<lambda>i. ''UID:'' @ uid (clock (2 * i)) i) (set [0..<length events])"
    by (rule inj_onI) (use uid_differ in auto)
  then have dist: "distinct (map (\<lambda>i. ''UID:'' @ uid (clock (2 * i)) i) [0..<length events])"
    by (simp add: distinct_map)
  have "filter (startsWith ''UID:'') (linesOf doc)
        = map (\<lambda>i. ''UID:'' @ uid (clock (2 * i)) i) [0..<length events]"
    if "\<forall>e \<in> set events. noLineFeed e"
    unfolding doc using linesOf_document_uid [OF that] written by simp
  then show ?thesis
    using doc written dist uid_differ by blast
qed

theorem uid_distinct_witness:
  "generateICS exampleParse exampleClock [midterm, backwards] \<noteq> Inl RangeError
   \<and> noLineFeed midterm \<and> noLineFeed backwards
   \<and> (case generateICS exampleParse exampleClock [midterm, backwards] of
         Inl e \<Rightarrow> False
       | Inr doc \<Rightarrow>
           filter (startsWith ''UID:'') (linesOf doc)
           = [''UID:1735689600000-0@calendar-converter'',
              ''UID:1735689600000-1@calendar-converter''])
   \<and> ''UID:1735689600000-0@calendar-converter'' \<noteq> ''UID:1735689600000-1@calendar-converter''"
proof -
  have ok: "allOk exampleParse exampleClock 0 [midterm, backwards]"
    by (simp add: eventOk_def exampleClock_def isoString_new_year parses_examples midterm_def
        backwards_def)
  then obtain doc where doc: "generateICS exampleParse exampleClock [midterm, backwards] = Inr doc"
    by (simp add: generateICS_eq)
  have lf: "\<forall>e \<in> set [midterm, backwards]. noLineFeed e"
    by (simp add: noLineFeed_def midterm_def backwards_def fieldText_def)
  have "filter (startsWith ''UID:'') (linesOf doc)
        = map (\<lambda>i. ''UID:'' @ uid (exampleClock (2 * i)) i) [0..<length [midterm, backwards]]"
    using uid_distinct [OF doc] lf by blast
  also have "\<dots> = [''UID:1735689600000-0@calendar-converter'',
                   ''UID:1735689600000-1@calendar-converter'']"
    using uid_examples(2) by (simp add: upt_conv_Cons exampleClock_def uid_examples del: upt_Suc)
  finally show ?thesis
    using lf by (simp add: doc)
qed

subsection \<open>Determinism\<close>

text \<open>
  C7 (as the code has it). \<open>generateICS\<close> takes no argument: it reads the events of its
  component and, twice in every pass, the clock. A call leaves the four state variables
  of the component as they were; in the world it only takes clock readings, at most two
  for each event and exactly two for each event when it returns a document. Its result is
  the result of the generator on the component's events and the readings from the
  current one on. So the result is determined by the host's parser, the events and the
  values of the \<open>2 * n\<close> readings: a call in any other world and with any other clock,
  where the component holds the same events and the readings taken have the same
  values, has the same result.
\<close>

theorem generateICS_deterministic:
  "component (snd (generateICSInWorld parse clock w)) = component w
   \<and> readings (snd (generateICSInWorld parse clock w))
       \<le> readings w + 2 * length (events' (component w))
   \<and> (\<forall>doc. fst (generateICSInWorld parse clock w) = Inr doc \<longrightarrow>
         readings (snd (generateICSInWorld parse clock w))
         = readings w + 2 * length (events' (component w)))
   \<and> fst (generateICSInWorld parse clock w)
       = generateICS parse (\<lambda>k. clock (readings w + k)) (events' (component w))
   \<and> (\<forall>clock2 w2.
         events' (component w2) = events' (component w)
         \<and> (\<forall>k < 2 * length (events' (component w)).
               clock2 (readings w2 + k) = clock (readings w + k))
         \<longrightarrow> fst (generateICSInWorld parse clock2 w2) = fst (generateICSInWorld parse clock w))"
proof -
  have "fst (generateICSInWorld parse clock2 w2) = fst (generateICSInWorld parse clock w)"
    if same: "events' (component w2) = events' (component w)"
      and reads: "\<forall>k < 2 * length (events' (component w)).
            clock2 (readings w2 + k) = clock (readings w + k)"
    for clock2 w2
  proof -
    have "\<forall>j < 2 * length (events' (component w)).
            (\<lambda>k. clock2 (readings w2 + k)) (0 + j) = (\<lambda>k. clock (readings w + k)) (0 + j)"
      using reads by simp
    then have "forEachEvent parse (\<lambda>k. clock2 (readings w2 + k)) 0 0 header (events' (component w))
        = forEachEvent parse (\<lambda>k. clock (readings w + k)) 0 0 header (events' (component w))"
      by (rule forEachEvent_clock_cong)
    then show ?thesis
      by (simp add: generateICSInWorld_result same generateICS_def)
  qed
  then show ?thesis
    using generateICSInWorld_component [of parse clock w]
      generateICSInWorld_readings [of parse clock w]
      generateICSInWorld_result [of parse clock w]
    by blast
qed

theorem generateICS_deterministic_witness:
  "fst (generateICSInWorld exampleParse lateClock busyWorld)
     = fst (generateICSInWorld exampleParse exampleClock quietWorld)
   \<and> fst (generateICSInWorld exampleParse exampleClock quietWorld)
     = generateICS exampleParse exampleClock [midterm, backwards]
   \<and> generateICS exampleParse exampleClock [midterm, backwards] \<noteq> Inl RangeError
   \<and> component (snd (generateICSInWorld exampleParse lateClock busyWorld)) = component busyWorld
   \<and> readings (snd (generateICSInWorld exampleParse exampleClock quietWorld)) = 4
   \<and> readings (snd (generateICSInWorld exampleParse lateClock busyWorld)) = 9
   \<and> component busyWorld \<noteq> component quietWorld
   \<and> lateClock 0 \<noteq> exampleClock 0"
proof -
  note quiet = generateICS_deterministic [of exampleParse exampleClock quietWorld]
  note busy = generateICS_deterministic [of exampleParse lateClock busyWorld]
  have ok: "allOk exampleParse exampleClock 0 [midterm, backwards]"
    by (simp add: eventOk_def exampleClock_def isoString_new_year parses_examples midterm_def
        backwards_def)
  then obtain doc where doc: "generateICS exampleParse exampleClock [midterm, backwards] = Inr doc"
    by (simp add: generateICS_eq)
  have pure: "fst (generateICSInWorld exampleParse exampleClock quietWorld)
      = generateICS exampleParse exampleClock [midterm, backwards]"
    using quiet by (simp add: quietWorld_def)
  have "events' (component busyWorld) = events' (component quietWorld)
      \<and> (\<forall>k < 2 * length (events' (component quietWorld)).
            lateClock (readings busyWorld + k) = exampleClock (readings quietWorld + k))"
    by (simp add: busyWorld_def quietWorld_def lateClock_def exampleClock_def)
  then have same: "fst (generateICSInWorld exampleParse lateClock busyWorld)
      = fst (generateICSInWorld exampleParse exampleClock quietWorld)"
    using quiet by blast
  have "readings (snd (generateICSInWorld exampleParse exampleClock quietWorld))
      = readings quietWorld + 2 * length (events' (component quietWorld))"
    using quiet pure doc by simp
  then have four: "readings (snd (generateICSInWorld exampleParse exampleClock quietWorld)) = 4"
    by (simp add: quietWorld_def)
  have "readings (snd (generateICSInWorld exampleParse lateClock busyWorld))
      = readings busyWorld + 2 * length (events' (component busyWorld))"
    using busy same pure doc by simp
  then have nine: "readings (snd (generateICSInWorld exampleParse lateClock busyWorld)) = 9"
    by (simp add: busyWorld_def)
  have "component (snd (generateICSInWorld exampleParse lateClock busyWorld)) = component busyWorld"
    using busy by blast
  then show ?thesis
    using same pure doc four nine
    by (simp add: busyWorld_def quietWorld_def lateClock_def exampleClock_def)
qed

text \<open>
  C7 as stated. Two runs that begin at the same instant need not agree: here both clocks read the same
  time for the first event, and the second clock has moved on by a second when the
  second event is written, so the two documents differ in the second DTSTAMP.
\<close>

theorem same_start_counterexample:
  "exampleClock 0 = movingClock 0 \<and> exampleClock 1 = movingClock 1
   \<and> generateICS exampleParse exampleClock [midterm, midterm]
       \<noteq> generateICS exampleParse movingClock [midterm, midterm]"
  by (simp add: generateICS_eq eventOk_def exampleClock_def movingClock_def midterm_def
      isoString_new_year isoString_one_second parses_examples blockLines_def eventLines_def
      icsValue_examples truthy_def)

subsection \<open>The download of Photo.jsx\<close>

text \<open>
  C10 (as the code has it). In Photo.jsx a response with at least one block stores the
  \<open>text\<close> of the block at index 0, whatever the type of that block. \<open>downloadICS\<close> offers
  under the name \<open>calendar.ics\<close> and the type \<open>text/calendar\<close> a file whose bytes are the
  UTF-8 text of the stored value and nothing else: nothing is generated, and nothing is
  checked. Read as UTF-8 the file gives the scalar values of the stored string. A stored
  string of ASCII characters is the content byte for byte; a stored string that is well
  formed is the string read back from the file, and two different such strings give
  different files.
\<close>

theorem downloadICS_Photo_content:
  "icsData (generateICS_Photo_response message st (first # others)) = blockText first
   \<and> content (downloadICS_Photo (generateICS_Photo_response message st (first # others)))
       = concat (map utf8 (scalarValues (toStringJS (blockText first))))
   \<and> content (downloadICS_Photo st) = concat (map utf8 (scalarValues (toStringJS (icsData st))))
   \<and> mimeType (downloadICS_Photo st) = ''text/calendar''
   \<and> download (downloadICS_Photo st) = ''calendar.ics''
   \<and> utf8Decode (content (downloadICS_Photo st)) = scalarValues (toStringJS (icsData st))
   \<and> (icsData st = Some s \<and> list_all (\<lambda>u. u < 128) s \<longrightarrow> content (downloadICS_Photo st) = s)
   \<and> (icsData st = Some s \<and> wellFormed s \<longrightarrow> stringOfBytes (content (downloadICS_Photo st)) = s)
   \<and> (icsData st = Some s \<and> icsData st' = Some s' \<and> wellFormed s \<and> wellFormed s'
        \<and> content (downloadICS_Photo st) = content (downloadICS_Photo st') \<longrightarrow> s = s')"
proof -
  have bytes: "content (downloadICS_Photo st) = concat (map utf8 (scalarValues (toStringJS (icsData st))))"
    for st
    by (simp add: downloadICS_Photo_def blobBytes_def)
  have again: "stringOfBytes (content (downloadICS_Photo st)) = s"
    if "icsData st = Some s" and "wellFormed s" for st s
    using that utf16Units_scalarValues [of s]
    by (simp add: bytes stringOfBytes_def utf8Decode_concat toStringJS_def)
  have stored: "icsData (generateICS_Photo_response message st (first # others)) = blockText first"
    by (simp add: generateICS_Photo_response_def)
  have answered: "content (downloadICS_Photo (generateICS_Photo_response message st (first # others)))
      = concat (map utf8 (scalarValues (toStringJS (blockText first))))"
    by (simp add: bytes stored)
  have mime: "mimeType (downloadICS_Photo st) = ''text/calendar''"
    and name: "download (downloadICS_Photo st) = ''calendar.ics''"
    by (simp_all add: downloadICS_Photo_def)
  have decoded: "utf8Decode (content (downloadICS_Photo st)) = scalarValues (toStringJS (icsData st))"
    by (simp add: bytes utf8Decode_concat)
  have plain: "icsData st = Some s \<and> list_all (\<lambda>u. u < 128) s \<longrightarrow> content (downloadICS_Photo st) = s"
    using scalarValues_ascii [of s] by (simp add: bytes toStringJS_def)
  have formed: "icsData st = Some s \<and> wellFormed s \<longrightarrow> stringOfBytes (content (downloadICS_Photo st)) = s"
    using again [of st s] by simp
  have different: "icsData st = Some s \<and> icsData st' = Some s' \<and> wellFormed s \<and> wellFormed s'
        \<and> content (downloadICS_Photo st) = content (downloadICS_Photo st') \<longrightarrow> s = s'"
  proof (intro impI)
    assume h: "icsData st = Some s \<and> icsData st' = Some s' \<and> wellFormed s \<and> wellFormed s'
        \<and> content (downloadICS_Photo st) = content (downloadICS_Photo st')"
    then have "stringOfBytes (content (downloadICS_Photo st)) = s"
      and "stringOfBytes (content (downloadICS_Photo st')) = s'"
      using again [of st s] again [of st' s'] by simp_all
    then show "s = s'" using h by simp
  qed
  show ?thesis
    using stored answered bytes [of st] mime name decoded plain formed different
    by (intro conjI)
qed

theorem downloadICS_Photo_content_witness:
  "icsData (generateICS_Photo_response [] waiting textFirst) = Some [66, 233, 8364, 55357, 56837]
   \<and> wellFormed [66, 233, 8364, 55357, 56837]
   \<and> content (downloadICS_Photo (generateICS_Photo_response [] waiting textFirst))
       = [66, 195, 169, 226, 130, 172, 240, 159, 152, 133]
   \<and> stringOfBytes [66, 195, 169, 226, 130, 172, 240, 159, 152, 133]
       = [66, 233, 8364, 55357, 56837]
   \<and> list_all (\<lambda>u. u < 128) [66, 69, 71, 73, 78::nat]
   \<and> content (downloadICS_Photo (waiting\<lparr>icsData := Some [66, 69, 71, 73, 78]\<rparr>))
       = [66, 69, 71, 73, 78]
   \<and> icsData replacement = Some [65533] \<and> wellFormed [65533]
   \<and> content (downloadICS_Photo replacement)
       = content (downloadICS_Photo (replacement\<lparr>loading := True\<rparr>))"
proof -
  define answered where "answered = generateICS_Photo_response [] waiting textFirst"
  have stored: "icsData answered = Some [66, 233, 8364, 55357, 56837]"
    by (simp add: answered_def generateICS_Photo_response_def textFirst_def waiting_def)
  have formed: "wellFormed [66, 233, 8364, 55357, 56837]"
    by (simp add: highSurrogate_def lowSurrogate_def)
  have bytes: "content (downloadICS_Photo answered)
      = [66, 195, 169, 226, 130, 172, 240, 159, 152, 133]"
    by (simp add: downloadICS_Photo_def blobBytes_def stored toStringJS_def highSurrogate_def
        lowSurrogate_def utf8_def)
  have "stringOfBytes (content (downloadICS_Photo answered)) = [66, 233, 8364, 55357, 56837]"
    using downloadICS_Photo_content [where st = answered and s = "[66, 233, 8364, 55357, 56837]"]
      stored formed
    by blast
  then have again: "stringOfBytes [66, 195, 169, 226, 130, 172, 240, 159, 152, 133]
      = [66, 233, 8364, 55357, 56837]"
    by (simp only: bytes)
  have ascii: "list_all (\<lambda>u. u < 128) [66, 69, 71, 73, 78::nat]"
    by simp
  have "icsData (waiting\<lparr>icsData := Some [66, 69, 71, 73, 78]\<rparr>) = Some [66, 69, 71, 73, 78]"
    by simp
  then have plain: "content (downloadICS_Photo (waiting\<lparr>icsData := Some [66, 69, 71, 73, 78]\<rparr>))
      = [66, 69, 71, 73, 78]"
    using downloadICS_Photo_content [where st = "waiting\<lparr>icsData := Some [66, 69, 71, 73, 78]\<rparr>"
        and s = "[66, 69, 71, 73, 78]"] ascii
    by blast
  have kept: "icsData replacement = Some [65533]"
    by (simp add: replacement_def)
  have single: "wellFormed [65533]"
    by (simp add: highSurrogate_def lowSurrogate_def)
  have same: "content (downloadICS_Photo replacement)
      = content (downloadICS_Photo (replacement\<lparr>loading := True\<rparr>))"
    by (simp add: downloadICS_Photo_def)
  show ?thesis
    using stored [unfolded answered_def] formed bytes [unfolded answered_def] again ascii plain
      kept single same
    by (intro conjI)
qed

text \<open>
  C10 as stated. The file is not the stored string for every value of \<open>icsData\<close>: a stored
  string that is a single high surrogate, as a JSON escape of D800 alone gives it, comes out
  as the three bytes of U+FFFD, the same file as for the stored string U+FFFD, and read
  back the file gives U+FFFD. And the stored value is not taken from the first text
  block: after a response whose first block is not a text block and whose second block
  is one, \<open>icsData\<close> is \<open>undefined\<close>.
\<close>

theorem lone_surrogate_counterexample:
  "icsData loneSurrogate = Some [55296]
   \<and> content (downloadICS_Photo loneSurrogate) = [239, 191, 189]
   \<and> content (downloadICS_Photo replacement) = [239, 191, 189]
   \<and> stringOfBytes (content (downloadICS_Photo loneSurrogate)) = [65533]
   \<and> icsData loneSurrogate \<noteq> icsData replacement
   \<and> blockType (toolFirst ! 0) \<noteq> ''text''
   \<and> blockType (toolFirst ! 1) = ''text''
   \<and> blockText (toolFirst ! 1) = Some (map of_char ''BEGIN:VCALENDAR'')
   \<and> icsData (generateICS_Photo_response [] waiting toolFirst) = None"
  by (simp add: loneSurrogate_def replacement_def downloadICS_Photo_def blobBytes_def
      toStringJS_def highSurrogate_def lowSurrogate_def utf8_def stringOfBytes_def utf16Units_def
      toolFirst_def generateICS_Photo_response_def waiting_def)
subsection \<open>Decoding\<close>

text \<open>
  C4 (as the code has it, against the decoder modelled from the spec). For events none of
  whose texts holds a line feed, decoding the generated document gives back, event by
  event and in order, the title, the start and the end as the UTC rendering of the times
  they were parsed to, and the location and the description, an empty one as absent. For
  a time whose UTC year has four digits the rendering is \<open>YYYYMMDDTHHMMSSZ\<close>.
\<close>

theorem decode_generateICS:
  assumes "generateICS parse clock events = Inr doc"
    and "\<forall>e \<in> set events. noLineFeed e"
  shows "decode doc = map (normalized parse) events
         \<and> (\<forall>e \<in> set events. parses parse (start e) \<and> parses parse (end' e))
         \<and> (\<forall>e \<in> set events. \<forall>t.
               newDate parse (start e) = Some t \<and> 0 \<le> YearFromTime t \<and> YearFromTime t \<le> 9999
               \<longrightarrow> start (normalized parse e) = utcBasic t \<and> basicUtcPattern (utcBasic t))
         \<and> (\<forall>e \<in> set events. \<forall>t.
               newDate parse (end' e) = Some t \<and> 0 \<le> YearFromTime t \<and> YearFromTime t \<le> 9999
               \<longrightarrow> end' (normalized parse e) = utcBasic t \<and> basicUtcPattern (utcBasic t))"
proof -
  have ok: "allOk parse clock 0 events"
    and doc: "doc = unlinesLF (headerLines @ allLines parse clock 0 0 events) @ ''END:VCALENDAR''"
    using assms(1) by (simp_all add: generateICS_eq split: if_splits)
  have "linesOf doc = headerLines @ allLines parse clock 0 0 events @ [''END:VCALENDAR'']"
    using linesOf_document [OF assms(2)] doc by simp
  then have "decode doc = map (normalized parse) events"
    by (simp add: decode_def decodeLines_header decodeLines_allLines)
  moreover have "\<forall>e \<in> set es. parses parse (start e) \<and> parses parse (end' e)"
    if "allOk parse clock k es" for k es
    using that by (induction es arbitrary: k) (auto simp: eventOk_def)
  then have "\<forall>e \<in> set events. parses parse (start e) \<and> parses parse (end' e)"
    using ok by blast
  ultimately show ?thesis
    by (simp add: normalized_def utcOf_def utcText_four_digits basicUtcPattern_utcBasic)
qed

theorem decode_generateICS_witness:
  "generateICS exampleParse exampleClock [midterm, lecture] \<noteq> Inl RangeError
   \<and> noLineFeed midterm \<and> noLineFeed lecture
   \<and> (case generateICS exampleParse exampleClock [midterm, lecture] of
         Inl e \<Rightarrow> False
       | Inr doc \<Rightarrow>
           decode doc =
             [\<lparr>title = ''Midterm'', start = ''20250310T090000Z'', end' = ''20250310T103000Z'',
               location = None, description = None\<rparr>,
              \<lparr>title = ''Lecture'', start = ''20250310T090000Z'', end' = ''20250310T103000Z'',
               location = Some ''Room 5'', description = None\<rparr>])
   \<and> newDate exampleParse (start midterm) = Some 1741597200000
   \<and> YearFromTime 1741597200000 = 2025
   \<and> utcBasic 1741597200000 = ''20250310T090000Z''"
proof -
  have ok: "allOk exampleParse exampleClock 0 [midterm, lecture]"
    by (simp add: eventOk_def exampleClock_def isoString_new_year parses_examples midterm_def
        lecture_def)
  then obtain doc where doc: "generateICS exampleParse exampleClock [midterm, lecture] = Inr doc"
    by (simp add: generateICS_eq)
  have lf: "\<forall>e \<in> set [midterm, lecture]. noLineFeed e"
    by (simp add: noLineFeed_def midterm_def lecture_def fieldText_def)
  have "decode doc = map (normalized exampleParse) [midterm, lecture]"
    using decode_generateICS [OF doc lf] by blast
  also have "\<dots> =
      [\<lparr>title = ''Midterm'', start = ''20250310T090000Z'', end' = ''20250310T103000Z'',
        location = None, description = None\<rparr>,
       \<lparr>title = ''Lecture'', start = ''20250310T090000Z'', end' = ''20250310T103000Z'',
        location = Some ''Room 5'', description = None\<rparr>]"
    by (simp add: normalized_def utcOf_def midterm_def lecture_def newDate_examples
        utcText_four_digits YearFromTime_examples utcBasic_examples truthy_def)
  finally show ?thesis
    using lf
    by (simp add: doc)
      (simp add: midterm_def newDate_examples YearFromTime_examples utcBasic_examples)
qed

text \<open>
  C4 as stated fails in two ways at this event: the title has two lines, of
  which the decoder finds the first, and the location is the empty string, for which no
  line is written, so that the decoder finds none. No other decoder would do better: an
  event titled \<open>Lab\<close> in Room 5 and an event without location whose title has the second
  line \<open>LOCATION:Room 5\<close> are different events with one and the same document.
\<close>

theorem roundtrip_counterexample:
  "title twoLines = ''Lab'' @ [LF] @ ''bring goggles'' \<and> location twoLines = Some []
   \<and> generateICS exampleParse exampleClock [twoLines] =
       Inr (''BEGIN:VCALENDAR'' @ [LF] @ ''VERSION:2.0'' @ [LF]
            @ ''PRODID:-//Calendar Photo Converter//EN'' @ [LF]
            @ ''BEGIN:VEVENT'' @ [LF]
            @ ''UID:1735689600000-0@calendar-converter'' @ [LF]
            @ ''DTSTAMP:20250101T000000Z'' @ [LF]
            @ ''DTSTART:20250310T090000Z'' @ [LF]
            @ ''DTEND:20250310T103000Z'' @ [LF]
            @ ''SUMMARY:Lab'' @ [LF]
            @ ''bring goggles'' @ [LF]
            @ ''END:VEVENT'' @ [LF]
            @ ''END:VCALENDAR'')
   \<and> decode (''BEGIN:VCALENDAR'' @ [LF] @ ''VERSION:2.0'' @ [LF]
            @ ''PRODID:-//Calendar Photo Converter//EN'' @ [LF]
            @ ''BEGIN:VEVENT'' @ [LF]
            @ ''UID:1735689600000-0@calendar-converter'' @ [LF]
            @ ''DTSTAMP:20250101T000000Z'' @ [LF]
            @ ''DTSTART:20250310T090000Z'' @ [LF]
            @ ''DTEND:20250310T103000Z'' @ [LF]
            @ ''SUMMARY:Lab'' @ [LF]
            @ ''bring goggles'' @ [LF]
            @ ''END:VEVENT'' @ [LF]
            @ ''END:VCALENDAR'')
       = [\<lparr>title = ''Lab'', start = ''20250310T090000Z'', end' = ''20250310T103000Z'',
           location = None, description = None\<rparr>]
   \<and> title relocated \<noteq> title roomFive \<and> location relocated \<noteq> location roomFive
   \<and> generateICS exampleParse exampleClock [relocated]
       = generateICS exampleParse exampleClock [roomFive]"
  by (simp add: generateICS_eq eventOk_def exampleClock_def twoLines_def isoString_new_year
      parses_examples blockLines_def eventLines_def icsValue_examples uid_examples
      headerLines_def truthy_def decode_def decodeProperty_def startsWith_def emptyEvent_def
      relocated_def roomFive_def)

end
